theory Spec2Isabelle
  imports Complex_Main
begin

section \<open>Data model\<close>

text \<open>
  A shallow embedding of the playback session logic of \<^verbatim>\<open>src/bot.py\<close>.
  Track references are URL strings, message handles are numbers, the resolved
  metadata dictionary is kept opaque (its title), and points in time are seconds
  on the real line (the source subtracts \<^verbatim>\<open>datetime\<close> values and reads
  \<^verbatim>\<open>total_seconds()\<close>).
\<close>

type_synonym url = string
type_synonym message = nat
type_synonym track_info = string
type_synonym timestamp = real

text \<open>The fields of \<^verbatim>\<open>class GuildPlayer\<close>, in the order of \<^verbatim>\<open>__init__\<close>.\<close>

record guild_player =
  queue :: "url list"
  playback_history :: "url list"
  loop_mode :: int
  current_track_url :: "url option"
  player_message :: "message option"
  current_track_info :: "track_info option"
  start_time :: "timestamp option"
  last_update :: "timestamp option"
  pause_time :: "timestamp option"
  total_paused_time :: real
  is_paused :: bool
  last_position :: real
  position_update_time :: "timestamp option"

definition GuildPlayer_init :: guild_player where
  "GuildPlayer_init =
     \<lparr>queue = [], playback_history = [], loop_mode = 0, current_track_url = None,
      player_message = None, current_track_info = None, start_time = None,
      last_update = None, pause_time = None, total_paused_time = 0, is_paused = False,
      last_position = 0, position_update_time = None\<rparr>"

text \<open>
  What \<^verbatim>\<open>guild.voice_client\<close> answers: \<open>None\<close> when the bot is not connected,
  otherwise whether the client is playing (\<^verbatim>\<open>is_playing()\<close>), paused
  (\<^verbatim>\<open>is_paused()\<close>) or connected with nothing playing.
\<close>

datatype playback = Playing | Paused | Stopped

definition is_playing :: "playback option \<Rightarrow> bool" where
  "is_playing vc = (vc = Some Playing)"

section \<open>Clock\<close>

text \<open>
  \<^verbatim>\<open>source.position if hasattr(source, 'position') else 0\<close>: the audio source
  either has a position attribute or it has none.
\<close>

definition source_position :: "real option \<Rightarrow> real" where
  "source_position sp = (case sp of Some x \<Rightarrow> x | None \<Rightarrow> 0)"

text \<open>
  \<^verbatim>\<open>GuildPlayer.get_elapsed_time\<close>. The current time, the voice client and the
  position attribute of its source are read from the environment; the method
  returns the elapsed seconds and, on the position branch, stores the sample.
\<close>

definition get_elapsed_time ::
  "timestamp \<Rightarrow> playback option \<Rightarrow> real option \<Rightarrow> guild_player \<Rightarrow> real \<times> guild_player" where
  "get_elapsed_time now vc sp p =
     (case start_time p of
        None \<Rightarrow> (0, p)
      | Some st \<Rightarrow>
          if is_playing vc \<and> source_position sp > 0
          then (source_position sp,
                p\<lparr>last_position := source_position sp, position_update_time := Some now\<rparr>)
          else
            let elapsed =
                  (case (if is_paused p then pause_time p else None) of
                     Some pt \<Rightarrow> pt - st - total_paused_time p
                   | None \<Rightarrow> now - st - total_paused_time p);
                elapsed' =
                  (case position_update_time p of
                     Some ut \<Rightarrow> if now - ut < 5 then max elapsed (last_position p) else elapsed
                   | None \<Rightarrow> elapsed)
            in (max 0 elapsed', p))"

text \<open>
  The arithmetic of \<^verbatim>\<open>get_elapsed_time\<close> above is exact. The source computes in
  floats: the difference of two \<^verbatim>\<open>datetime\<close> values is exact, \<^verbatim>\<open>total_seconds()\<close>
  rounds it to a float, and the subtraction of \<^verbatim>\<open>total_paused_time\<close> rounds
  again. \<^verbatim>\<open>get_elapsed_time_float\<close> is the same method with every such result
  passed through \<open>rnd\<close>, the rounding of float arithmetic, which is taken as a
  parameter; \<^verbatim>\<open>max\<close> and the comparisons do not round.
\<close>

definition get_elapsed_time_float ::
  "(real \<Rightarrow> real) \<Rightarrow> timestamp \<Rightarrow> playback option \<Rightarrow> real option \<Rightarrow> guild_player \<Rightarrow>
   real \<times> guild_player" where
  "get_elapsed_time_float rnd now vc sp p =
     (case start_time p of
        None \<Rightarrow> (0, p)
      | Some st \<Rightarrow>
          if is_playing vc \<and> source_position sp > 0
          then (source_position sp,
                p\<lparr>last_position := source_position sp, position_update_time := Some now\<rparr>)
          else
            let elapsed =
                  (case (if is_paused p then pause_time p else None) of
                     Some pt \<Rightarrow> rnd (rnd (pt - st) - total_paused_time p)
                   | None \<Rightarrow> rnd (rnd (now - st) - total_paused_time p));
                elapsed' =
                  (case position_update_time p of
                     Some ut \<Rightarrow>
                       if rnd (now - ut) < 5 then max elapsed (last_position p) else elapsed
                   | None \<Rightarrow> elapsed)
            in (max 0 elapsed', p))"

text \<open>
  \<^verbatim>\<open>GuildPlayer.pause\<close> and \<^verbatim>\<open>GuildPlayer.resume\<close>. \<^verbatim>\<open>resume\<close> adds the float
  \<^verbatim>\<open>total_seconds()\<close> of the pause to the float \<^verbatim>\<open>total_paused_time\<close>: both
  results go through the rounding \<open>rnd\<close>.
\<close>

definition pause :: "timestamp \<Rightarrow> guild_player \<Rightarrow> guild_player" where
  "pause now p =
     (if \<not> is_paused p then p\<lparr>pause_time := Some now, is_paused := True\<rparr> else p)"

definition resume :: "(real \<Rightarrow> real) \<Rightarrow> timestamp \<Rightarrow> guild_player \<Rightarrow> guild_player" where
  "resume rnd now p =
     (case (if is_paused p then pause_time p else None) of
        Some pt \<Rightarrow>
          p\<lparr>total_paused_time := rnd (total_paused_time p + rnd (now - pt)),
            pause_time := None, is_paused := False\<rparr>
      | None \<Rightarrow> p)"

text \<open>
  The assignments with which \<^verbatim>\<open>play_track\<close> loads a track and restarts the
  clock (\<^verbatim>\<open>player.current_track_url = url\<close> down to
  \<^verbatim>\<open>player.position_update_time = None\<close>).
\<close>

definition load_track :: "url \<Rightarrow> timestamp \<Rightarrow> guild_player \<Rightarrow> guild_player" where
  "load_track u now p =
     p\<lparr>current_track_url := Some u, current_track_info := None, start_time := Some now,
       last_update := None, pause_time := None, total_paused_time := 0,
       is_paused := False, last_position := 0, position_update_time := None\<rparr>"

text \<open>
  The elapsed-time contract in the words of the specification: the pause-aware
  wall-clock estimate floored at 0, and on top of it the stored position sample
  while that sample is less than 5 seconds old.
\<close>

definition spec_time_estimate :: "timestamp \<Rightarrow> timestamp \<Rightarrow> guild_player \<Rightarrow> real" where
  "spec_time_estimate now st p =
     max 0 ((case pause_time p of Some pt \<Rightarrow> pt | None \<Rightarrow> now) - st - total_paused_time p)"

definition spec_elapsed :: "timestamp \<Rightarrow> timestamp \<Rightarrow> guild_player \<Rightarrow> real" where
  "spec_elapsed now st p =
     (case position_update_time p of
        Some ut \<Rightarrow>
          if now - ut < 5 then max (spec_time_estimate now st p) (last_position p)
          else spec_time_estimate now st p
      | None \<Rightarrow> spec_time_estimate now st p)"

text \<open>
  A session of calls on one player's clock: each call carries the time at which
  it happens, a query also what the voice client answers at that moment. Running
  the calls in order, in float arithmetic with rounding \<open>rnd\<close>, collects what the
  queries return (\<open>run_clock\<close>) and leaves the player in a state (\<open>clock_after\<close>).
\<close>

datatype clock_call =
    CallPause timestamp
  | CallResume timestamp
  | CallElapsed timestamp "playback option" "real option"

fun call_time :: "clock_call \<Rightarrow> timestamp" where
  "call_time (CallPause t) = t"
| "call_time (CallResume t) = t"
| "call_time (CallElapsed t vc sp) = t"

fun reports_position :: "clock_call \<Rightarrow> bool" where
  "reports_position (CallElapsed t vc sp) = (is_playing vc \<and> source_position sp > 0)"
| "reports_position _ = False"

fun is_resume :: "clock_call \<Rightarrow> bool" where
  "is_resume (CallResume t) = True"
| "is_resume _ = False"

fun run_clock :: "(real \<Rightarrow> real) \<Rightarrow> clock_call list \<Rightarrow> guild_player \<Rightarrow> real list" where
  "run_clock rnd [] p = []"
| "run_clock rnd (CallPause t # cs) p = run_clock rnd cs (pause t p)"
| "run_clock rnd (CallResume t # cs) p = run_clock rnd cs (resume rnd t p)"
| "run_clock rnd (CallElapsed t vc sp # cs) p =
     fst (get_elapsed_time_float rnd t vc sp p) #
     run_clock rnd cs (snd (get_elapsed_time_float rnd t vc sp p))"

fun clock_after :: "(real \<Rightarrow> real) \<Rightarrow> clock_call list \<Rightarrow> guild_player \<Rightarrow> guild_player" where
  "clock_after rnd [] p = p"
| "clock_after rnd (CallPause t # cs) p = clock_after rnd cs (pause t p)"
| "clock_after rnd (CallResume t # cs) p = clock_after rnd cs (resume rnd t p)"
| "clock_after rnd (CallElapsed t vc sp # cs) p =
     clock_after rnd cs (snd (get_elapsed_time_float rnd t vc sp p))"

text \<open>
  The state of a clock that runs on its timer: started at \<open>st\<close>, no position
  sample stored, the pause flag agreeing with the pause time, and a pause time
  not after \<open>tb\<close>.
\<close>

definition timer_state :: "timestamp \<Rightarrow> timestamp \<Rightarrow> guild_player \<Rightarrow> bool" where
  "timer_state st tb p =
     (start_time p = Some st \<and> position_update_time p = None \<and>
      (is_paused p \<longleftrightarrow> pause_time p \<noteq> None) \<and>
      (case pause_time p of Some pt \<Rightarrow> pt \<le> tb | None \<Rightarrow> True))"

text \<open>The timer's answer in such a state at time \<open>t\<close>, in float arithmetic.\<close>

definition timer_estimate :: "(real \<Rightarrow> real) \<Rightarrow> timestamp \<Rightarrow> timestamp \<Rightarrow> guild_player \<Rightarrow> real" where
  "timer_estimate rnd t st p =
     max 0 (rnd (rnd ((case pause_time p of Some pt \<Rightarrow> pt | None \<Rightarrow> t) - st) -
                 total_paused_time p))"

section \<open>Sessions, voice clients and handlers\<close>

text \<open>
  The outcome of a call on a message (\<^verbatim>\<open>edit\<close>, \<^verbatim>\<open>delete\<close>, \<^verbatim>\<open>fetch\<close>): it
  returns, it raises \<^verbatim>\<open>discord.NotFound\<close>, or it raises another exception.
\<close>

datatype api_result = Done | NotFound | Failed

datatype play_error = NotInVoiceChannel | ConnectFailed | ExtractFailed | StartFailed

text \<open>
  What a handler does to the outside: its reply through \<^verbatim>\<open>handle_interaction\<close>
  (the text without its leading emoji), the calls on the panel message, the
  error messages of \<^verbatim>\<open>play_track\<close>, the texts sent through the message handler
  of \<^verbatim>\<open>play_command\<close>, and an exception that leaves the handler.
\<close>

datatype effect =
    Respond nat string
  | DeletePanel nat message api_result
  | EditPanel nat message
  | SendPanel nat "message option"
  | SendError nat play_error
  | SendText nat string
  | Unhandled nat string

text \<open>
  The global dictionary \<^verbatim>\<open>players\<close> (guild id to player), the voice client of
  each guild, and the effects so far, oldest first.
\<close>

record world =
  players :: "nat \<rightharpoonup> guild_player"
  voice_client :: "nat \<rightharpoonup> playback"
  effects :: "effect list"

definition init_world :: world where
  "init_world = \<lparr>players = Map.empty, voice_client = Map.empty, effects = []\<rparr>"

text \<open>
  \<^verbatim>\<open>get_player\<close>: the player of the guild, created and registered on first use.
  A handler works on the object it got; \<open>store\<close> writes the object's new
  contents back under the guild's key.
\<close>

definition get_player :: "nat \<Rightarrow> world \<Rightarrow> guild_player \<times> world" where
  "get_player g w =
     (case players w g of
        Some p \<Rightarrow> (p, w)
      | None \<Rightarrow> (GuildPlayer_init, w\<lparr>players := (players w)(g \<mapsto> GuildPlayer_init)\<rparr>))"

definition store :: "nat \<Rightarrow> guild_player \<Rightarrow> world \<Rightarrow> world" where
  "store g p w = w\<lparr>players := (players w)(g \<mapsto> p)\<rparr>"

definition set_voice :: "nat \<Rightarrow> playback option \<Rightarrow> world \<Rightarrow> world" where
  "set_voice g vc w = w\<lparr>voice_client := (voice_client w)(g := vc)\<rparr>"

definition emit :: "effect \<Rightarrow> world \<Rightarrow> world" where
  "emit x w = w\<lparr>effects := effects w @ [x]\<rparr>"

text \<open>Python's truth value of \<^verbatim>\<open>player.current_track_url\<close>: set and not empty.\<close>

definition truthy :: "url option \<Rightarrow> bool" where
  "truthy c = (case c of Some u \<Rightarrow> u \<noteq> [] | None \<Rightarrow> False)"

text \<open>
  What \<^verbatim>\<open>play_track\<close> reads from outside: the time, whether the requester is
  in a voice channel, whether connecting succeeds, the metadata the extraction
  yields (\<open>None\<close> when it ends in an exception), whether the audio source starts,
  how deleting the old panel ends, the panel message sent (\<open>None\<close> when sending
  fails), and the time and source position when the panel is rendered. The
  handlers that move the clock read the rounding of float arithmetic from it too.
\<close>

record track_env =
  env_now :: timestamp
  author_in_voice :: bool
  connect_ok :: bool
  extracted :: "track_info option"
  source_ok :: bool
  panel_delete :: api_result
  panel_sent :: "message option"
  embed_now :: timestamp
  embed_position :: "real option"
  float_round :: "real \<Rightarrow> real"

definition ensure_connected :: "playback option \<Rightarrow> playback option" where
  "ensure_connected vc = (case vc of None \<Rightarrow> Some Stopped | Some s \<Rightarrow> Some s)"

text \<open>\<^verbatim>\<open>if url not in player.playback_history: player.playback_history.append(url)\<close>\<close>

definition remember :: "url \<Rightarrow> url list \<Rightarrow> url list" where
  "remember u h = (if u \<in> set h then h else h @ [u])"

text \<open>
  \<^verbatim>\<open>play_track\<close>. Its exceptions end in its own handler, which sends the error
  text; the early return and each raise are the branches below, in the order of
  the source.
\<close>

definition play_track :: "track_env \<Rightarrow> nat \<Rightarrow> url \<Rightarrow> world \<Rightarrow> world" where
  "play_track e g u w0 =
     (let p = fst (get_player g w0);
          w = snd (get_player g w0);
          w1 = (case player_message p of
                  Some m \<Rightarrow> emit (DeletePanel g m (panel_delete e)) w
                | None \<Rightarrow> w);
          vc = (if is_playing (voice_client w g) then Some Stopped else voice_client w g);
          p1 = load_track u (env_now e) (p\<lparr>player_message := None\<rparr>)
      in if vc = None \<and> \<not> author_in_voice e then
           emit (SendError g NotInVoiceChannel) (store g p1 w1)
         else if vc = None \<and> \<not> connect_ok e then
           emit (SendError g ConnectFailed) (store g p1 w1)
         else
           (case extracted e of
              None \<Rightarrow>
                emit (SendError g ExtractFailed) (set_voice g (ensure_connected vc) (store g p1 w1))
            | Some info \<Rightarrow>
                let p2 = p1\<lparr>current_track_info := Some info,
                            playback_history := remember u (playback_history p1)\<rparr>
                in if \<not> source_ok e then
                     emit (SendError g StartFailed)
                       (set_voice g (ensure_connected vc)
                          (store g (p2\<lparr>current_track_url := None, current_track_info := None\<rparr>) w1))
                   else
                     let p3 = snd (get_elapsed_time (embed_now e) (Some Playing)
                                     (embed_position e) p2);
                         p4 = (case panel_sent e of
                                 Some m \<Rightarrow> p3\<lparr>player_message := Some m\<rparr>
                               | None \<Rightarrow> p3)
                     in emit (SendPanel g (panel_sent e))
                          (set_voice g (Some Playing) (store g p4 w1))))"

text \<open>
  The loop handling at the head of \<^verbatim>\<open>play_next\<close>: the queue after the track that
  just finished has been put back.
\<close>

definition requeue_finished :: "guild_player \<Rightarrow> url list" where
  "requeue_finished p =
     (case current_track_url p of
        Some u \<Rightarrow>
          if u \<noteq> [] then
            (if loop_mode p = 1 then u # queue p
             else if loop_mode p = 2 then queue p @ [u]
             else queue p)
          else queue p
      | None \<Rightarrow> queue p)"

text \<open>
  \<^verbatim>\<open>play_next\<close>, up to the three minutes of sleep on an empty queue; what it
  does after the sleep is \<open>inactivity_timeout\<close>.
\<close>

definition play_next :: "track_env \<Rightarrow> nat \<Rightarrow> world \<Rightarrow> world" where
  "play_next e g w0 =
     (let p = fst (get_player g w0);
          w = snd (get_player g w0);
          p1 = p\<lparr>queue := requeue_finished p, current_track_url := None,
                 current_track_info := None\<rparr>
      in case queue p1 of
           next_url # rest \<Rightarrow> play_track e g next_url (store g (p1\<lparr>queue := rest\<rparr>) w)
         | [] \<Rightarrow>
             (case player_message p1 of
                Some m \<Rightarrow> emit (EditPanel g m) (store g p1 w)
              | None \<Rightarrow> store g p1 w))"

text \<open>
  The end of \<^verbatim>\<open>play_next\<close> after \<^verbatim>\<open>asyncio.sleep(180)\<close>. \<open>queue_empty\<close> is
  \<^verbatim>\<open>not player.queue\<close> of the player object the call got three minutes before.
\<close>

definition inactivity_timeout :: "bool \<Rightarrow> nat \<Rightarrow> world \<Rightarrow> world" where
  "inactivity_timeout queue_empty g w =
     (if voice_client w g \<noteq> None \<and> \<not> is_playing (voice_client w g) \<and> queue_empty
      then w\<lparr>players := (players w)(g := None), voice_client := (voice_client w)(g := None)\<rparr>
      else w)"

text \<open>
  \<^verbatim>\<open>handle_playback_complete\<close>, the callback of \<^verbatim>\<open>voice_client.play\<close>. \<open>conn\<close>
  is \<open>None\<close> unless the error is \<^verbatim>\<open>ConnectionClosed\<close>, and then tells whether the
  reconnection succeeded.
\<close>

definition handle_playback_complete :: "bool option \<Rightarrow> track_env \<Rightarrow> nat \<Rightarrow> world \<Rightarrow> world" where
  "handle_playback_complete conn e g w =
     play_next e g
       (case conn of
          None \<Rightarrow> w
        | Some ok \<Rightarrow> set_voice g (if ok then Some Stopped else None) w)"

text \<open>\<^verbatim>\<open>MusicControls.previous_button\<close>\<close>

definition previous_button :: "nat \<Rightarrow> world \<Rightarrow> world" where
  "previous_button g w0 =
     (let p = fst (get_player g w0);
          w = snd (get_player g w0)
      in if length (playback_history p) > 1 then
           let q1 = (case current_track_url p of
                       Some u \<Rightarrow> if u \<noteq> [] then u # queue p else queue p
                     | None \<Rightarrow> queue p);
               h1 = butlast (playback_history p);
               prev_track = last h1;
               p' = p\<lparr>queue := prev_track # q1, playback_history := butlast h1\<rparr>
           in if voice_client w g \<noteq> None then
                emit (Respond g ''Playing previous track.'')
                  (set_voice g (Some Stopped) (store g p' w))
              else emit (Respond g ''Not connected to voice channel.'') (store g p' w)
         else emit (Respond g ''No previous track in history.'') w)"

text \<open>\<^verbatim>\<open>MusicControls.play_pause_button\<close>\<close>

definition play_pause_button :: "track_env \<Rightarrow> nat \<Rightarrow> world \<Rightarrow> world" where
  "play_pause_button e g w0 =
     (let p = fst (get_player g w0);
          w = snd (get_player g w0)
      in case voice_client w g of
           None \<Rightarrow> w
         | Some Paused \<Rightarrow>
             emit (Respond g ''Resumed.'')
               (set_voice g (Some Playing) (store g (resume (float_round e) (env_now e) p) w))
         | Some Playing \<Rightarrow>
             emit (Respond g ''Paused.'')
               (set_voice g (Some Paused) (store g (pause (env_now e) p) w))
         | Some Stopped \<Rightarrow>
             (case queue p of
                next_url # rest \<Rightarrow>
                  emit (Respond g ''Starting playback.'')
                    (play_track e g next_url (store g (p\<lparr>queue := rest\<rparr>) w))
              | [] \<Rightarrow> emit (Respond g ''Nothing in queue to play.'') w))"

text \<open>
  \<^verbatim>\<open>MusicControls.skip_button\<close>. The handler never binds \<^verbatim>\<open>player\<close>, so its
  second condition raises \<^verbatim>\<open>NameError\<close> once it comes to \<^verbatim>\<open>player.queue\<close>.
\<close>

definition skip_button :: "nat \<Rightarrow> world \<Rightarrow> world" where
  "skip_button g w =
     (if voice_client w g \<noteq> None \<and> is_playing (voice_client w g) then
        emit (Respond g ''Skipped.'') (set_voice g (Some Stopped) w)
      else if voice_client w g \<noteq> None then emit (Unhandled g ''NameError'') w
      else emit (Respond g ''Nothing to skip.'') w)"

text \<open>\<^verbatim>\<open>MusicControls.loop_button\<close>\<close>

definition loop_status_text :: "int \<Rightarrow> string" where
  "loop_status_text m = (if m = 0 then ''Off'' else if m = 1 then ''Track'' else ''Queue'')"

definition loop_button :: "nat \<Rightarrow> world \<Rightarrow> world" where
  "loop_button g w0 =
     (let p = fst (get_player g w0);
          w = snd (get_player g w0);
          p' = p\<lparr>loop_mode := (loop_mode p + 1) mod 3\<rparr>
      in emit (Respond g (''Loop mode set to **'' @ loop_status_text (loop_mode p') @ ''**.''))
           (store g p' w))"

text \<open>
  \<^verbatim>\<open>MusicControls.stop_button\<close>. \<open>d\<close> is how deleting the panel message ends:
  \<^verbatim>\<open>NotFound\<close> is passed over, any other exception leaves the handler before
  \<^verbatim>\<open>players.pop\<close>.
\<close>

definition stop_button :: "api_result \<Rightarrow> nat \<Rightarrow> world \<Rightarrow> world" where
  "stop_button d g w0 =
     (let p = fst (get_player g w0);
          w = snd (get_player g w0)
      in if voice_client w g \<noteq> None then
           let w1 = set_voice g None (store g (p\<lparr>queue := []\<rparr>) w);
               w2 = (case player_message p of
                       Some m \<Rightarrow> emit (DeletePanel g m d) w1
                     | None \<Rightarrow> w1)
           in if player_message p \<noteq> None \<and> d = Failed then emit (Unhandled g ''delete'') w2
              else emit (Respond g ''Playback stopped and queue cleared.'')
                     (w2\<lparr>players := (players w2)(g := None)\<rparr>)
         else emit (Respond g ''Not connected to a voice channel.'') w)"

text \<open>
  The end of \<^verbatim>\<open>play_command\<close>, from the voice check on. \<open>found\<close> is the page URL
  of the best search result, \<open>None\<close> when every search strategy failed (the
  text sent then is the error of the last strategy, here a fixed one).
\<close>

definition play_command :: "bool \<Rightarrow> url option \<Rightarrow> track_env \<Rightarrow> nat \<Rightarrow> world \<Rightarrow> world" where
  "play_command user_in_voice found e g w0 =
     (if \<not> user_in_voice then emit (SendText g ''You must be in a voice channel first!'') w0
      else
        let p = fst (get_player g w0);
            w = snd (get_player g w0)
        in case found of
             None \<Rightarrow> emit (SendText g ''No result.'') w
           | Some u \<Rightarrow>
               if voice_client w g = None \<or> \<not> is_playing (voice_client w g) then
                 play_track e g u w
               else
                 emit (SendText g ''Added to the queue.'')
                   (store g (p\<lparr>queue := queue p @ [u]\<rparr>) w))"

text \<open>
  \<^verbatim>\<open>on_voice_state_update\<close> for the bot leaving its voice channel: the panel is
  deleted, and the player is dropped when the reconnection fails.
\<close>

definition on_voice_state_update :: "api_result \<Rightarrow> bool \<Rightarrow> nat \<Rightarrow> world \<Rightarrow> world" where
  "on_voice_state_update d reconnect_ok g w0 =
     (let w = set_voice g None w0
      in case players w g of
           None \<Rightarrow> w
         | Some p \<Rightarrow>
             let w1 = (case player_message p of
                         Some m \<Rightarrow> emit (DeletePanel g m d) w
                       | None \<Rightarrow> w)
             in if player_message p \<noteq> None \<and> d = Failed then emit (Unhandled g ''delete'') w1
                else if reconnect_ok then set_voice g (Some Stopped) w1
                else w1\<lparr>players := (players w1)(g := None)\<rparr>)"

text \<open>\<^verbatim>\<open>on_shutdown\<close>\<close>

definition on_shutdown :: "world \<Rightarrow> world" where
  "on_shutdown w = w\<lparr>players := Map.empty, voice_client := Map.empty\<rparr>"

text \<open>
  One question to the clock of a registered player, as \<^verbatim>\<open>create_player_embed\<close>
  and \<^verbatim>\<open>update_progress\<close> ask it.
\<close>

definition query_elapsed :: "timestamp \<Rightarrow> real option \<Rightarrow> nat \<Rightarrow> world \<Rightarrow> world" where
  "query_elapsed t sp g w =
     (case players w g of
        None \<Rightarrow> w
      | Some p \<Rightarrow> store g (snd (get_elapsed_time t (voice_client w g) sp p)) w)"

text \<open>
  Everything that can happen to the world, each event with what it reads from
  outside. \<open>TrackEnds\<close> is the audio source running out. A handler runs from
  start to end without another one in between, and an external call that the
  source does not guard with \<^verbatim>\<open>try\<close> is taken to return. The refresh loop
  \<^verbatim>\<open>update_progress\<close> is present through its question to the clock only: beyond
  that it assigns \<^verbatim>\<open>player_message\<close>, \<^verbatim>\<open>last_position\<close> and
  \<^verbatim>\<open>position_update_time\<close> and no other field of the player.
\<close>

datatype event =
    PlayCommand bool "url option" track_env nat
  | PlayNext "bool option" track_env nat
  | InactivityTimeout bool nat
  | PreviousButton nat
  | PlayPauseButton track_env nat
  | SkipButton nat
  | LoopButton nat
  | StopButton api_result nat
  | VoiceStateUpdate api_result bool nat
  | Shutdown
  | QueryElapsed timestamp "real option" nat
  | TrackEnds nat

fun step :: "event \<Rightarrow> world \<Rightarrow> world" where
  "step (PlayCommand v found e g) w = play_command v found e g w"
| "step (PlayNext conn e g) w = handle_playback_complete conn e g w"
| "step (InactivityTimeout qe g) w = inactivity_timeout qe g w"
| "step (PreviousButton g) w = previous_button g w"
| "step (PlayPauseButton e g) w = play_pause_button e g w"
| "step (SkipButton g) w = skip_button g w"
| "step (LoopButton g) w = loop_button g w"
| "step (StopButton d g) w = stop_button d g w"
| "step (VoiceStateUpdate d ok g) w = on_voice_state_update d ok g w"
| "step Shutdown w = on_shutdown w"
| "step (QueryElapsed t sp g) w = query_elapsed t sp g w"
| "step (TrackEnds g) w =
     (if is_playing (voice_client w g) then set_voice g (Some Stopped) w else w)"

definition run :: "event list \<Rightarrow> world \<Rightarrow> world" where
  "run evs w = foldl (\<lambda>w ev. step ev w) w evs"

text \<open>
  Environments in which every external call of \<^verbatim>\<open>play_track\<close> succeeds and no
  float operation rounds (their times are whole seconds), and the condition
  under which a load gets as far as starting the audio source.
\<close>

definition all_ok :: "timestamp \<Rightarrow> message \<Rightarrow> track_env" where
  "all_ok t m =
     \<lparr>env_now = t, author_in_voice = True, connect_ok = True, extracted = Some ''info'',
      source_ok = True, panel_delete = Done, panel_sent = Some m, embed_now = t,
      embed_position = None, float_round = (\<lambda>x. x)\<rparr>"

definition load_succeeds :: "track_env \<Rightarrow> playback option \<Rightarrow> bool" where
  "load_succeeds e vc =
     ((vc \<noteq> None \<or> (author_in_voice e \<and> connect_ok e)) \<and> extracted e \<noteq> None \<and> source_ok e)"

section \<open>The message handler of a command\<close>

datatype exn = NotFoundError | OtherError

text \<open>
  A Python \<^verbatim>\<open>str\<close>, as the list of its Unicode code points; \<open>py\<close> gives the \<^verbatim>\<open>str\<close>
  of an ASCII literal.
\<close>

type_synonym py_str = "nat list"

definition py :: "string \<Rightarrow> py_str" where
  "py s = map of_char s"

text \<open>
  The fields of \<^verbatim>\<open>class MessageHandler\<close>. An entry of \<^verbatim>\<open>message_history\<close> keeps
  the action and the status of the logged line, not its free-text details.
\<close>

record message_handler =
  message :: "message option"
  initialized :: bool
  last_error :: "exn option"
  message_history :: "(string \<times> string) list"
  last_send_attempt :: "py_str option"
  last_send_error :: "exn option"
  thinking_message :: "message option"

definition MessageHandler_init :: message_handler where
  "MessageHandler_init =
     \<lparr>message = None, initialized = False, last_error = None, message_history = [],
      last_send_attempt = None, last_send_error = None, thinking_message = None\<rparr>"

definition log_message :: "string \<Rightarrow> string \<Rightarrow> message_handler \<Rightarrow> message_handler" where
  "log_message action status h = h\<lparr>message_history := message_history h @ [(action, status)]\<rparr>"

text \<open>The messages a call of the handler gets out, in order.\<close>

datatype sent = Edited message py_str | FollowedUp py_str | Posted message py_str

text \<open>
  What \<^verbatim>\<open>initialize\<close> reads from outside: how \<^verbatim>\<open>response.defer\<close> ends, the handle
  \<^verbatim>\<open>original_response()\<close> gives, and the message \<^verbatim>\<open>channel.send\<close> creates (\<open>None\<close>
  when it raises).
\<close>

record init_env =
  defer_result :: api_result
  original_response :: message
  fallback_send :: "message option"

definition initialize ::
  "init_env \<Rightarrow> message_handler \<Rightarrow> exn option \<times> message_handler \<times> sent list" where
  "initialize env h0 =
     (let h = log_message ''Initialize'' ''Attempting to defer response'' h0
      in case defer_result env of
           Done \<Rightarrow>
             (None,
              log_message ''Initialize'' ''Success''
                (h\<lparr>initialized := True, thinking_message := Some (original_response env)\<rparr>),
              [])
         | NotFound \<Rightarrow>
             (let h1 = log_message ''Initialize'' ''Failed'' h
              in case fallback_send env of
                   Some m \<Rightarrow>
                     (None,
                      log_message ''Initialize'' ''Fallback''
                        (h1\<lparr>message := Some m, initialized := True\<rparr>),
                      [Posted m (128269 # 32 # py ''Searching for your song...'')])
                 | None \<Rightarrow> (Some OtherError, h1, []))
         | Failed \<Rightarrow>
             (let h1 = log_message ''Initialize'' ''Error'' (h\<lparr>last_error := Some OtherError\<rparr>)
              in case fallback_send env of
                   Some m \<Rightarrow>
                     (None,
                      log_message ''Initialize'' ''Recovery''
                        (h1\<lparr>message := Some m, initialized := True\<rparr>),
                      [Posted m (128269 # 32 # py ''Searching for your song...'')])
                 | None \<Rightarrow> (Some OtherError, h1, [])))"

text \<open>
  The code points \<^verbatim>\<open>str.strip()\<close> removes, those \<^verbatim>\<open>str.isspace\<close> accepts: the
  ASCII controls 9 to 13 and 28 to 31, the space, U+0085, U+00A0, U+1680,
  U+2000 to U+200A, U+2028, U+2029, U+202F, U+205F and U+3000.
\<close>

definition py_isspace :: "nat \<Rightarrow> bool" where
  "py_isspace c =
     ((9 \<le> c \<and> c \<le> 13) \<or> (28 \<le> c \<and> c \<le> 32) \<or> c = 133 \<or> c = 160 \<or> c = 5760 \<or>
      (8192 \<le> c \<and> c \<le> 8202) \<or> c = 8232 \<or> c = 8233 \<or> c = 8239 \<or> c = 8287 \<or>
      c = 12288)"

text \<open>\<^verbatim>\<open>str.strip()\<close>: the white space at both ends goes.\<close>

definition py_strip :: "py_str \<Rightarrow> py_str" where
  "py_strip s = rev (dropWhile py_isspace (rev (dropWhile py_isspace s)))"

text \<open>\<^verbatim>\<open>not content or not content.strip()\<close>, and the content \<^verbatim>\<open>send\<close> goes on with.\<close>

definition blank :: "py_str \<Rightarrow> bool" where
  "blank content = (content = [] \<or> py_strip content = [])"

definition send_content :: "py_str \<Rightarrow> py_str" where
  "send_content content =
     (if blank content then py ''An error occurred, but no details were provided.''
      else content)"

text \<open>
  What \<^verbatim>\<open>send\<close> reads from outside: how editing the thinking message, editing the
  stored message and the follow-up end, and the message \<^verbatim>\<open>channel.send\<close> creates in
  the body and in the exception handler (\<open>None\<close> when it raises).
\<close>

record send_env =
  thinking_edit :: api_result
  message_edit :: api_result
  followup_send :: api_result
  channel_send :: "message option"
  channel_resend :: "message option"

text \<open>
  The body of \<^verbatim>\<open>send\<close> after the thinking message: the stored message, else the
  follow-up of an initialized handler, else a first channel message. The first
  component is the exception that leaves the body.
\<close>

definition send_rest ::
  "send_env \<Rightarrow> py_str \<Rightarrow> message_handler \<Rightarrow> exn option \<times> message_handler \<times> sent list" where
  "send_rest env c h =
     (case message h of
        Some m \<Rightarrow>
          (let h1 = log_message ''Send'' ''Updating'' h
           in case message_edit env of
                Done \<Rightarrow> (None, log_message ''Send'' ''Success'' h1, [Edited m c])
              | NotFound \<Rightarrow>
                  (let h2 = log_message ''Send'' ''Failed'' h1
                   in case channel_send env of
                        Some m' \<Rightarrow>
                          (None, log_message ''Send'' ''Success'' (h2\<lparr>message := Some m'\<rparr>),
                           [Posted m' c])
                      | None \<Rightarrow> (Some OtherError, h2, []))
              | Failed \<Rightarrow> (Some OtherError, h1, []))
      | None \<Rightarrow>
          if initialized h then
            (let h1 = log_message ''Send'' ''Attempting'' h
             in case followup_send env of
                  Done \<Rightarrow> (None, log_message ''Send'' ''Success'' h1, [FollowedUp c])
                | NotFound \<Rightarrow>
                    (let h2 = log_message ''Send'' ''Failed'' h1
                     in case channel_send env of
                          Some m' \<Rightarrow>
                            (None, log_message ''Send'' ''Fallback'' (h2\<lparr>message := Some m'\<rparr>),
                             [Posted m' c])
                        | None \<Rightarrow> (Some OtherError, h2, []))
                | Failed \<Rightarrow>
                    (let h2 = log_message ''Send'' ''Error''
                                (h1\<lparr>last_send_error := Some OtherError\<rparr>)
                     in case channel_send env of
                          Some m' \<Rightarrow>
                            (None, log_message ''Send'' ''Recovery'' (h2\<lparr>message := Some m'\<rparr>),
                             [Posted m' c])
                        | None \<Rightarrow> (Some OtherError, h2, [])))
          else
            (let h1 = log_message ''Send'' ''Initial'' h
             in case channel_send env of
                  Some m' \<Rightarrow>
                    (None,
                     log_message ''Send'' ''Success''
                       (h1\<lparr>message := Some m', initialized := True\<rparr>),
                     [Posted m' c])
                | None \<Rightarrow> (Some OtherError, h1, [])))"

text \<open>The body of \<^verbatim>\<open>send\<close>, inside its \<^verbatim>\<open>try\<close>.\<close>

definition send_try ::
  "send_env \<Rightarrow> py_str \<Rightarrow> message_handler \<Rightarrow> exn option \<times> message_handler \<times> sent list" where
  "send_try env content h0 =
     (let h1 = h0\<lparr>last_send_attempt := Some content\<rparr>;
          h2 = (if blank content then log_message ''Send'' ''Error'' h1 else h1);
          c = send_content content
      in case thinking_message h2 of
           Some t \<Rightarrow>
             (let h3 = log_message ''Send'' ''Updating'' h2
              in case thinking_edit env of
                   Done \<Rightarrow>
                     (None, log_message ''Send'' ''Success'' (h3\<lparr>message := Some t\<rparr>),
                      [Edited t c])
                 | NotFound \<Rightarrow>
                     send_rest env c
                       ((log_message ''Send'' ''Failed'' h3)\<lparr>thinking_message := None\<rparr>)
                 | Failed \<Rightarrow>
                     send_rest env c
                       ((log_message ''Send'' ''Error'' h3)\<lparr>thinking_message := None\<rparr>))
         | None \<Rightarrow> send_rest env c h2)"

text \<open>
  \<^verbatim>\<open>MessageHandler.send\<close>: the body, and the \<^verbatim>\<open>except Exception\<close> clause around it.
  The first component is the exception that reaches the caller.
\<close>

definition send ::
  "send_env \<Rightarrow> py_str \<Rightarrow> message_handler \<Rightarrow> exn option \<times> message_handler \<times> sent list" where
  "send env content h0 =
     (case send_try env content h0 of
        (None, h, out) \<Rightarrow> (None, h, out)
      | (Some e, h, out) \<Rightarrow>
          (let h1 = log_message ''Send'' ''Error'' (h\<lparr>last_send_error := Some e\<rparr>)
           in case message h1 of
                Some m \<Rightarrow> (None, h1, out)
              | None \<Rightarrow>
                  (case channel_resend env of
                     Some m' \<Rightarrow>
                       (None,
                        log_message ''Send'' ''Recovery''
                          (h1\<lparr>message := Some m', initialized := True\<rparr>),
                        out @ [Posted m' (send_content content)])
                   | None \<Rightarrow> (None, log_message ''Send'' ''Critical'' h1, out))))"

text \<open>
  What every event carries over from a player to its successor (the loop mode,
  and a history without duplicates), and the invariant of the registered players.
\<close>

definition carried :: "guild_player \<Rightarrow> guild_player \<Rightarrow> bool" where
  "carried p p' =
     (loop_mode p' = loop_mode p \<and>
      (distinct (playback_history p) \<longrightarrow> distinct (playback_history p')))"

definition player_ok :: "guild_player \<Rightarrow> bool" where
  "player_ok p = (distinct (playback_history p) \<and> loop_mode p \<in> {0, 1, 2})"

text \<open>A world with one guild, its player and its voice client.\<close>

abbreviation one_guild :: "guild_player \<Rightarrow> playback \<Rightarrow> world" where
  "one_guild p vc \<equiv> \<lparr>players = [1 \<mapsto> p], voice_client = [1 \<mapsto> vc], effects = []\<rparr>"

section \<open>Properties of the clock\<close>

lemma get_elapsed_time_eq:
  assumes "start_time p = Some st"
    and "is_paused p \<longleftrightarrow> pause_time p \<noteq> None"
  shows "get_elapsed_time now vc sp p =
           (if is_playing vc \<and> source_position sp > 0
            then (source_position sp,
                  p\<lparr>last_position := source_position sp, position_update_time := Some now\<rparr>)
            else (spec_elapsed now st p, p))"
proof (cases "is_playing vc \<and> source_position sp > 0")
  case True
  then show ?thesis using assms by (simp add: get_elapsed_time_def)
next
  case False
  have est: "(case (if is_paused p then pause_time p else None) of
                Some pt \<Rightarrow> pt - st - total_paused_time p
              | None \<Rightarrow> now - st - total_paused_time p)
             = (case pause_time p of Some pt \<Rightarrow> pt | None \<Rightarrow> now) - st - total_paused_time p"
    using assms(2) by (cases "pause_time p") auto
  show ?thesis
    using False assms(1)
    by (cases "position_update_time p")
       (auto simp: get_elapsed_time_def spec_elapsed_def spec_time_estimate_def est Let_def
                   max.assoc)
qed

lemma get_elapsed_time_float_exact:
  "get_elapsed_time_float (\<lambda>x. x) now vc sp p = get_elapsed_time now vc sp p"
  by (simp add: get_elapsed_time_float_def get_elapsed_time_def)

lemma get_elapsed_time_float_nonneg: "0 \<le> fst (get_elapsed_time_float rnd now vc sp p)"
  by (auto simp: get_elapsed_time_float_def Let_def split: option.splits)

lemma run_clock_nonneg: "e \<in> set (run_clock rnd cs p) \<Longrightarrow> 0 \<le> e"
proof (induction cs arbitrary: p)
  case Nil
  then show ?case by simp
next
  case (Cons c cs)
  then show ?case
    by (cases c) (auto simp: get_elapsed_time_float_nonneg)
qed

text \<open>The answers to a list of calls, split at any point.\<close>

lemma run_clock_append:
  "run_clock rnd (pre @ cs) p = run_clock rnd pre p @ run_clock rnd cs (clock_after rnd pre p)"
proof (induction pre arbitrary: p)
  case Nil
  then show ?case by simp
next
  case (Cons c pre)
  then show ?case by (cases c) simp_all
qed

text \<open>On its timer, the clock answers the timer estimate and keeps its state.\<close>

lemma get_elapsed_time_float_timer:
  assumes "timer_state st tb p"
    and "\<not> (is_playing vc \<and> source_position sp > 0)"
  shows "get_elapsed_time_float rnd t vc sp p = (timer_estimate rnd t st p, p)"
proof (cases "pause_time p")
  case None
  then show ?thesis
    using assms by (auto simp: timer_state_def get_elapsed_time_float_def timer_estimate_def)
next
  case (Some pt)
  then show ?thesis
    using assms by (auto simp: timer_state_def get_elapsed_time_float_def timer_estimate_def)
qed

lemma timer_estimate_mono:
  "mono rnd \<Longrightarrow> t \<le> t' \<Longrightarrow> timer_estimate rnd t st p \<le> timer_estimate rnd t' st p"
  by (cases "pause_time p")
     (auto simp: timer_estimate_def monoD intro!: max.coboundedI2)

lemma timer_state_later: "timer_state st tb p \<Longrightarrow> tb \<le> tb' \<Longrightarrow> timer_state st tb' p"
  by (auto simp: timer_state_def split: option.splits)

lemma timer_state_pause: "timer_state st tb p \<Longrightarrow> tb \<le> t \<Longrightarrow> timer_state st t (pause t p)"
  by (auto simp: timer_state_def pause_def split: option.splits)

lemma timer_state_resume: "timer_state st tb p \<Longrightarrow> timer_state st tb' (resume rnd t p)"
  by (auto simp: timer_state_def resume_def split: option.splits)

lemma timer_estimate_pause:
  "mono rnd \<Longrightarrow> timer_state st tb p \<Longrightarrow> t0 \<le> t \<Longrightarrow>
   timer_estimate rnd t0 st p \<le> timer_estimate rnd t st (pause t p)"
  by (cases "pause_time p")
     (auto simp: timer_state_def timer_estimate_def pause_def monoD intro!: max.coboundedI2)

text \<open>In exact arithmetic a resume leaves the timer where the pause stopped it.\<close>

lemma timer_estimate_resume_exact:
  "timer_state st t0 p \<Longrightarrow> t0 \<le> t \<Longrightarrow>
   timer_estimate (\<lambda>x. x) t0 st p \<le> timer_estimate (\<lambda>x. x) t st (resume (\<lambda>x. x) t p)"
  by (cases "pause_time p")
     (auto simp: timer_state_def timer_estimate_def resume_def)

text \<open>A prefix of calls that read no position leaves the clock on its timer.\<close>

lemma clock_after_timer_state:
  assumes "timer_state st tb p"
    and "\<And>c. c \<in> set pre \<Longrightarrow> call_time c \<le> tb \<and> \<not> reports_position c"
  shows "timer_state st tb (clock_after rnd pre p)"
  using assms
proof (induction pre arbitrary: p)
  case Nil
  then show ?case by simp
next
  case (Cons c pre)
  have rest: "\<And>d. d \<in> set pre \<Longrightarrow> call_time d \<le> tb \<and> \<not> reports_position d"
    using Cons.prems(2) by simp
  have hd: "call_time c \<le> tb" "\<not> reports_position c"
    using Cons.prems(2)[of c] by simp_all
  show ?case
  proof (cases c)
    case (CallPause t)
    have "timer_state st tb (pause t p)"
      using Cons.prems(1) hd CallPause
      by (auto simp: timer_state_def pause_def split: option.splits)
    then show ?thesis using Cons.IH[OF _ rest] CallPause by simp
  next
    case (CallResume t)
    have "timer_state st tb (resume rnd t p)"
      using Cons.prems(1) by (rule timer_state_resume)
    then show ?thesis using Cons.IH[OF _ rest] CallResume by simp
  next
    case (CallElapsed t vc sp)
    have "get_elapsed_time_float rnd t vc sp p = (timer_estimate rnd t st p, p)"
      using get_elapsed_time_float_timer[OF Cons.prems(1)] hd(2) CallElapsed by simp
    then show ?thesis using Cons.IH[OF Cons.prems(1) rest] CallElapsed by simp
  qed
qed

text \<open>
  The timer never runs backwards between two resumes, whatever the monotone
  rounding; and over resumes too when the arithmetic is exact. From a clock on
  its timer, calls at non-decreasing times that never read a position return
  non-decreasing values, none below the timer estimate at the start.
\<close>

lemma run_clock_timer_mono:
  assumes "mono rnd"
    and "rnd = (\<lambda>x. x) \<or> (\<forall>c\<in>set cs. \<not> is_resume c)"
    and "timer_state st t0 p"
    and "sorted (t0 # map call_time cs)"
    and "\<And>c. c \<in> set cs \<Longrightarrow> \<not> reports_position c"
  shows "sorted (run_clock rnd cs p) \<and>
         (\<forall>e\<in>set (run_clock rnd cs p). timer_estimate rnd t0 st p \<le> e)"
  using assms(2-)
proof (induction cs arbitrary: p t0)
  case Nil
  then show ?case by simp
next
  case (Cons c cs)
  have le: "t0 \<le> call_time c" and srt: "sorted (call_time c # map call_time cs)"
    using Cons.prems(3) by auto
  have quiet: "\<And>d. d \<in> set cs \<Longrightarrow> \<not> reports_position d"
    using Cons.prems(4) by simp
  have ar: "rnd = (\<lambda>x. x) \<or> (\<forall>c\<in>set cs. \<not> is_resume c)"
    using Cons.prems(1) by auto
  show ?case
  proof (cases c)
    case (CallPause t)
    let ?q = "pause t p"
    have a: "timer_state st t ?q"
      using timer_state_pause[OF Cons.prems(2)] le CallPause by simp
    have ih: "sorted (run_clock rnd cs ?q) \<and>
              (\<forall>e\<in>set (run_clock rnd cs ?q). timer_estimate rnd t st ?q \<le> e)"
      using Cons.IH[OF ar a _ quiet] srt CallPause by simp
    have "timer_estimate rnd t0 st p \<le> timer_estimate rnd t st ?q"
      using timer_estimate_pause[OF assms(1) Cons.prems(2)] le CallPause by simp
    then show ?thesis using ih CallPause by fastforce
  next
    case (CallResume t)
    have ex: "rnd = (\<lambda>x. x)"
      using Cons.prems(1) CallResume by auto
    let ?q = "resume rnd t p"
    have a: "timer_state st t ?q"
      using Cons.prems(2) by (rule timer_state_resume)
    have ih: "sorted (run_clock rnd cs ?q) \<and>
              (\<forall>e\<in>set (run_clock rnd cs ?q). timer_estimate rnd t st ?q \<le> e)"
      using Cons.IH[OF ar a _ quiet] srt CallResume by simp
    have "timer_estimate rnd t0 st p \<le> timer_estimate rnd t st ?q"
      using timer_estimate_resume_exact[OF Cons.prems(2), of t] le CallResume
      unfolding ex by simp
    then show ?thesis using ih CallResume by fastforce
  next
    case (CallElapsed t vc sp)
    have nr: "\<not> (is_playing vc \<and> source_position sp > 0)"
      using Cons.prems(4)[of c] CallElapsed by simp
    have g: "get_elapsed_time_float rnd t vc sp p = (timer_estimate rnd t st p, p)"
      using get_elapsed_time_float_timer[OF Cons.prems(2) nr] .
    have b: "timer_state st t p"
      using timer_state_later[OF Cons.prems(2)] le CallElapsed by simp
    have ih: "sorted (run_clock rnd cs p) \<and>
              (\<forall>e\<in>set (run_clock rnd cs p). timer_estimate rnd t st p \<le> e)"
      using Cons.IH[OF ar b _ quiet] srt CallElapsed by simp
    have m: "timer_estimate rnd t0 st p \<le> timer_estimate rnd t st p"
      using timer_estimate_mono[OF assms(1)] le CallElapsed by simp
    show ?thesis using ih m g CallElapsed by fastforce
  qed
qed

lemma timer_state_load_track: "timer_state t0 tb (load_track u t0 p)"
  by (simp add: timer_state_def load_track_def)

lemma run_clock_between_resumes:
  assumes "mono rnd"
    and "sorted (map call_time (pre @ cs))"
    and "\<And>c. c \<in> set (pre @ cs) \<Longrightarrow> \<not> reports_position c"
    and "\<And>c. c \<in> set cs \<Longrightarrow> \<not> is_resume c"
  shows "sorted (run_clock rnd cs (clock_after rnd pre (load_track u t0 p)))"
proof (cases cs)
  case Nil
  then show ?thesis by simp
next
  case (Cons c cs')
  let ?q = "clock_after rnd pre (load_track u t0 p)"
  have before: "\<And>d. d \<in> set pre \<Longrightarrow> call_time d \<le> call_time c \<and> \<not> reports_position d"
    using assms(2,3) Cons by (auto simp: sorted_append)
  have a: "timer_state t0 (call_time c) ?q"
    using clock_after_timer_state[OF timer_state_load_track before] by simp
  have s: "sorted (call_time c # map call_time cs)"
    using assms(2) Cons by (auto simp: sorted_append)
  have r: "rnd = (\<lambda>x. x) \<or> (\<forall>c\<in>set cs. \<not> is_resume c)"
    using assms(4) by simp
  have quiet: "\<And>d. d \<in> set cs \<Longrightarrow> \<not> reports_position d"
    using assms(3) by simp
  show ?thesis
    using run_clock_timer_mono[OF assms(1) r a s quiet] by simp
qed

lemma run_clock_started_mono:
  assumes "sorted (map call_time cs)"
    and "\<And>c. c \<in> set cs \<Longrightarrow> \<not> reports_position c"
  shows "sorted (run_clock (\<lambda>x. x) cs (load_track u t0 p))"
proof (cases cs)
  case Nil
  then show ?thesis by simp
next
  case (Cons c cs')
  have m: "mono (\<lambda>x::real. x)" by (simp add: mono_def)
  have s: "sorted (call_time c # map call_time cs)"
    using assms(1) Cons by simp
  show ?thesis
    using run_clock_timer_mono[OF m _ timer_state_load_track s assms(2)] by simp
qed

text \<open>
  C2 (as the code has it). With a start time set and the pause flag agreeing with
  the pause time, \<^verbatim>\<open>get_elapsed_time\<close> returns the position of the playing voice
  client unchanged when that position is positive, also when it is smaller than
  the timer estimate, and stores it as the latest sample; in every other case it
  returns what the specification describes: the larger of the floored timer
  estimate and a stored sample less than 5 seconds old, else the floored timer
  estimate, and the player is unchanged.
\<close>

theorem get_elapsed_time_cases:
  assumes "start_time p = Some st"
    and "is_paused p \<longleftrightarrow> pause_time p \<noteq> None"
  shows "get_elapsed_time now vc sp p =
           (if is_playing vc \<and> source_position sp > 0
            then (source_position sp,
                  p\<lparr>last_position := source_position sp, position_update_time := Some now\<rparr>)
            else (spec_elapsed now st p, p))"
  using assms by (rule get_elapsed_time_eq)

text \<open>
  The theorem at a clock started at 0 that holds a sample of 130 seconds taken at
  98: asked at 100 with no voice client, the sample wins over the timer's 100.
\<close>

theorem get_elapsed_time_cases_witness:
  "start_time ((load_track ''u'' 0 GuildPlayer_init)
       \<lparr>last_position := 130, position_update_time := Some 98\<rparr>) = Some 0 \<and>
   (is_paused ((load_track ''u'' 0 GuildPlayer_init)
       \<lparr>last_position := 130, position_update_time := Some 98\<rparr>) \<longleftrightarrow>
    pause_time ((load_track ''u'' 0 GuildPlayer_init)
       \<lparr>last_position := 130, position_update_time := Some 98\<rparr>) \<noteq> None) \<and>
   get_elapsed_time 100 None None ((load_track ''u'' 0 GuildPlayer_init)
       \<lparr>last_position := 130, position_update_time := Some 98\<rparr>) =
     (130, (load_track ''u'' 0 GuildPlayer_init)
       \<lparr>last_position := 130, position_update_time := Some 98\<rparr>)"
  using get_elapsed_time_cases[of "(load_track ''u'' 0 GuildPlayer_init)
       \<lparr>last_position := 130, position_update_time := Some 98\<rparr>" 0 100 None None]
  by (simp add: load_track_def GuildPlayer_init_def is_playing_def spec_elapsed_def
        spec_time_estimate_def)

text \<open>
  C2 as the specification words it fails where the voice client is playing: a
  clock started at 0 and asked at 100, while the source reports position 50,
  answers 50; the specification's rule gives 100, whether the sample is taken
  as stored before the question or not.
\<close>

theorem get_elapsed_time_spec_counterexample:
  "fst (get_elapsed_time 100 (Some Playing) (Some 50) (load_track ''u'' 0 GuildPlayer_init)) = 50 \<and>
   spec_elapsed 100 0 (load_track ''u'' 0 GuildPlayer_init) = 100 \<and>
   spec_elapsed 100 0
     (snd (get_elapsed_time 100 (Some Playing) (Some 50) (load_track ''u'' 0 GuildPlayer_init)))
     = 100"
  by (simp add: get_elapsed_time_def load_track_def GuildPlayer_init_def is_playing_def
        source_position_def spec_elapsed_def spec_time_estimate_def)

text \<open>
  C5 (as the code has it). What \<^verbatim>\<open>get_elapsed_time\<close> returns is never
  negative, whatever the calls, the state and the rounding. On a clock started
  by \<^verbatim>\<open>play_track\<close>, with \<^verbatim>\<open>pause\<close>, \<^verbatim>\<open>resume\<close> and queries at non-decreasing
  times of which no query reads a positive position from a playing voice client:
  in float arithmetic with a monotone rounding, the values returned after any
  prefix of the calls are non-decreasing up to the next \<^verbatim>\<open>resume\<close>; and in exact
  arithmetic (no operation rounds) all the returned values are non-decreasing,
  resumes included.
\<close>

theorem elapsed_nonneg_and_timer_monotone:
  "(\<forall>e\<in>set (run_clock rnd cs p). 0 \<le> e) \<and>
   (mono rnd \<and> sorted (map call_time (pre @ cs)) \<and>
    (\<forall>c\<in>set (pre @ cs). \<not> reports_position c) \<and> (\<forall>c\<in>set cs. \<not> is_resume c) \<longrightarrow>
      sorted (run_clock rnd cs (clock_after rnd pre (load_track u t0 p)))) \<and>
   (sorted (map call_time cs) \<and> (\<forall>c\<in>set cs. \<not> reports_position c) \<longrightarrow>
      sorted (run_clock (\<lambda>x. x) cs (load_track u t0 p)))"
  using run_clock_nonneg run_clock_between_resumes run_clock_started_mono by blast

lemmas clock_defs = get_elapsed_time_float_def load_track_def GuildPlayer_init_def
  is_playing_def source_position_def pause_def resume_def

text \<open>
  The theorem on a pause of 10 seconds: started at 0, asked at 4, paused at 5,
  asked at 9, resumed at 15, asked at 20, paused at 21 and asked at 25. The
  answers are 4, 5, 10 and 11, the last two after the resume.
\<close>

theorem elapsed_nonneg_and_timer_monotone_witness:
  "mono (\<lambda>x::real. x) \<and>
   sorted (map call_time
     ([CallElapsed 4 (Some Playing) None, CallPause 5, CallElapsed 9 (Some Paused) None,
       CallResume 15] @
      [CallElapsed 20 (Some Playing) None, CallPause 21, CallElapsed 25 (Some Paused) None])) \<and>
   list_all (\<lambda>c. \<not> reports_position c)
     ([CallElapsed 4 (Some Playing) None, CallPause 5, CallElapsed 9 (Some Paused) None,
       CallResume 15] @
      [CallElapsed 20 (Some Playing) None, CallPause 21, CallElapsed 25 (Some Paused) None]) \<and>
   list_all (\<lambda>c. \<not> is_resume c)
     [CallElapsed 20 (Some Playing) None, CallPause 21, CallElapsed 25 (Some Paused) None] \<and>
   run_clock (\<lambda>x. x)
     ([CallElapsed 4 (Some Playing) None, CallPause 5, CallElapsed 9 (Some Paused) None,
       CallResume 15] @
      [CallElapsed 20 (Some Playing) None, CallPause 21, CallElapsed 25 (Some Paused) None])
     (load_track ''u'' 0 GuildPlayer_init) = [4, 5, 10, 11] \<and>
   run_clock (\<lambda>x. x)
     [CallElapsed 20 (Some Playing) None, CallPause 21, CallElapsed 25 (Some Paused) None]
     (clock_after (\<lambda>x. x)
        [CallElapsed 4 (Some Playing) None, CallPause 5, CallElapsed 9 (Some Paused) None,
         CallResume 15] (load_track ''u'' 0 GuildPlayer_init)) = [10, 11] \<and>
   sorted (run_clock (\<lambda>x. x)
     [CallElapsed 20 (Some Playing) None, CallPause 21, CallElapsed 25 (Some Paused) None]
     (clock_after (\<lambda>x. x)
        [CallElapsed 4 (Some Playing) None, CallPause 5, CallElapsed 9 (Some Paused) None,
         CallResume 15] (load_track ''u'' 0 GuildPlayer_init))) \<and>
   sorted (run_clock (\<lambda>x. x)
     ([CallElapsed 4 (Some Playing) None, CallPause 5, CallElapsed 9 (Some Paused) None,
       CallResume 15] @
      [CallElapsed 20 (Some Playing) None, CallPause 21, CallElapsed 25 (Some Paused) None])
     (load_track ''u'' 0 GuildPlayer_init))"
  using elapsed_nonneg_and_timer_monotone[of "\<lambda>x. x"
     "[CallElapsed 20 (Some Playing) None, CallPause 21, CallElapsed 25 (Some Paused) None]"
     GuildPlayer_init
     "[CallElapsed 4 (Some Playing) None, CallPause 5, CallElapsed 9 (Some Paused) None,
       CallResume 15]" "''u''" 0]
    elapsed_nonneg_and_timer_monotone[of "\<lambda>x. x"
     "[CallElapsed 4 (Some Playing) None, CallPause 5, CallElapsed 9 (Some Paused) None,
       CallResume 15, CallElapsed 20 (Some Playing) None, CallPause 21,
       CallElapsed 25 (Some Paused) None]"
     GuildPlayer_init "[]" "''u''" 0]
  by (simp add: clock_defs mono_def)

text \<open>
  C5 as stated fails once the source reports positions. Started at 0: asked at
  100 while playing at position 90, paused at 101, asked at 102, resumed at 103,
  asked at 104 while playing at position 91. The answers are 90, 101 and 91 (all
  the numbers are whole seconds, on which float arithmetic is exact).
\<close>

theorem elapsed_not_monotone_counterexample:
  "run_clock (\<lambda>x. x)
     [CallElapsed 100 (Some Playing) (Some 90), CallPause 101,
      CallElapsed 102 (Some Paused) (Some 90), CallResume 103,
      CallElapsed 104 (Some Playing) (Some 91)]
     (load_track ''u'' 0 GuildPlayer_init) = [90, 101, 91] \<and>
   \<not> sorted (run_clock (\<lambda>x. x)
     [CallElapsed 100 (Some Playing) (Some 90), CallPause 101,
      CallElapsed 102 (Some Paused) (Some 90), CallResume 103,
      CallElapsed 104 (Some Playing) (Some 91)]
     (load_track ''u'' 0 GuildPlayer_init))"
  by (simp add: clock_defs)

text \<open>
  Monotone rounding alone does not carry the timer over a resume. With every
  float result rounded up to a whole second: started at 0, paused at 1/2, asked
  at 1/2, resumed at 1 and asked at 1, the answers are 1 and 0.
\<close>

lemma run_clock_rounding_decrease:
  "mono (\<lambda>x::real. real_of_int \<lceil>x\<rceil>) \<and>
   run_clock (\<lambda>x. of_int \<lceil>x\<rceil>)
     [CallPause (1/2), CallElapsed (1/2) (Some Paused) None, CallResume 1,
      CallElapsed 1 (Some Playing) None]
     (load_track ''u'' 0 GuildPlayer_init) = [1, 0]"
proof -
  have c: "\<lceil>(1::real) / 2\<rceil> = 1"
    by (simp add: ceiling_eq_iff)
  have m: "mono (\<lambda>x::real. real_of_int \<lceil>x\<rceil>)"
    by (simp add: mono_def ceiling_mono)
  show ?thesis
    using m by (simp add: clock_defs c)
qed

section \<open>Properties of the session handlers\<close>

lemma get_player_Some: "players w g = Some p \<Longrightarrow> get_player g w = (p, w)"
  by (simp add: get_player_def)

lemma upd_swap:
  "p\<lparr>queue := q, current_track_url := c, current_track_info := i\<rparr> =
   p\<lparr>current_track_url := c, current_track_info := i, queue := q\<rparr>"
  by (cases p) simp

lemma world_simps [simp]:
  "players (emit x w) = players w"
  "voice_client (emit x w) = voice_client w"
  "effects (emit x w) = effects w @ [x]"
  "players (store g p w) = (players w)(g \<mapsto> p)"
  "voice_client (store g p w) = voice_client w"
  "effects (store g p w) = effects w"
  "players (set_voice g vc w) = players w"
  "voice_client (set_voice g vc w) = (voice_client w)(g := vc)"
  "effects (set_voice g vc w) = effects w"
  by (simp_all add: emit_def store_def set_voice_def)

lemma get_player_simps [simp]:
  "players (snd (get_player g w)) = (players w)(g \<mapsto> fst (get_player g w))"
  "voice_client (snd (get_player g w)) = voice_client w"
  "effects (snd (get_player g w)) = effects w"
  by (auto simp: get_player_def split: option.splits)

lemma elapsed_frame [simp]:
  "queue (snd (get_elapsed_time t vc sp p)) = queue p"
  "playback_history (snd (get_elapsed_time t vc sp p)) = playback_history p"
  "loop_mode (snd (get_elapsed_time t vc sp p)) = loop_mode p"
  "current_track_url (snd (get_elapsed_time t vc sp p)) = current_track_url p"
  "player_message (snd (get_elapsed_time t vc sp p)) = player_message p"
  by (auto simp: get_elapsed_time_def Let_def split: option.splits)

text \<open>The player play_track leaves behind.\<close>

lemma play_track_player:
  "\<exists>p'. players (play_track e g u w) = (players w)(g \<mapsto> p') \<and>
        loop_mode p' = loop_mode (fst (get_player g w)) \<and>
        queue p' = queue (fst (get_player g w)) \<and>
        playback_history p' =
          (if (voice_client w g \<noteq> None \<or> (author_in_voice e \<and> connect_ok e)) \<and>
              extracted e \<noteq> None
           then remember u (playback_history (fst (get_player g w)))
           else playback_history (fst (get_player g w))) \<and>
        current_track_url p' =
          (if (voice_client w g \<noteq> None \<or> (author_in_voice e \<and> connect_ok e)) \<and>
              extracted e \<noteq> None \<and> \<not> source_ok e
           then None else Some u)"
  by (auto simp: play_track_def Let_def load_track_def is_playing_def
      split: option.splits)


lemma play_track_voice:
  "load_succeeds e (voice_client w g) \<Longrightarrow> voice_client (play_track e g u w) g = Some Playing"
  by (auto simp: play_track_def Let_def load_succeeds_def is_playing_def split: option.splits)

lemma elapsed_frame_info [simp]:
  "current_track_info (snd (get_elapsed_time t vc sp p)) = current_track_info p"
  "start_time (snd (get_elapsed_time t vc sp p)) = start_time p"
  by (auto simp: get_elapsed_time_def Let_def split: option.splits)

lemma play_track_started:
  assumes "load_succeeds e (voice_client w g)"
  shows "\<exists>p'. players (play_track e g u w) = (players w)(g \<mapsto> p') \<and>
              current_track_url p' = Some u \<and> current_track_info p' = extracted e \<and>
              start_time p' = Some (env_now e) \<and>
              queue p' = queue (fst (get_player g w))"
  using assms
  by (auto simp: play_track_def Let_def load_track_def is_playing_def load_succeeds_def
      split: option.splits)

text \<open>
  C4. When \<^verbatim>\<open>play_next\<close> runs with a track loaded, the queue first takes the
  finished track back: at the head in loop mode 1 (track), at the tail in loop
  mode 2 (queue), not at all otherwise, the other entries keeping their order.
  Then the current track is cleared. If that queue is empty, the player is left
  with no current track and an empty queue. If not, its head is removed and
  handed to \<^verbatim>\<open>play_track\<close>: afterwards the queue is the rest, the current track
  is that head (none if the audio source failed to start), and when the load
  succeeds the player has its metadata, a restarted clock and a playing voice
  client.
\<close>

theorem play_next_advance:
  assumes "players w g = Some p"
    and "current_track_url p = Some u"
    and "u \<noteq> []"
  shows "requeue_finished p =
           (if loop_mode p = 1 then u # queue p
            else if loop_mode p = 2 then queue p @ [u]
            else queue p) \<and>
         play_next e g w =
           (case requeue_finished p of
              next_url # rest \<Rightarrow>
                play_track e g next_url
                  (store g (p\<lparr>current_track_url := None, current_track_info := None,
                             queue := rest\<rparr>) w)
            | [] \<Rightarrow>
                (case player_message p of
                   Some m \<Rightarrow>
                     emit (EditPanel g m)
                       (store g (p\<lparr>current_track_url := None, current_track_info := None,
                                  queue := []\<rparr>) w)
                 | None \<Rightarrow>
                     store g (p\<lparr>current_track_url := None, current_track_info := None,
                                queue := []\<rparr>) w)) \<and>
         (requeue_finished p = [] \<longrightarrow>
            players (play_next e g w) =
              (players w)(g \<mapsto> p\<lparr>current_track_url := None, current_track_info := None,
                                 queue := []\<rparr>) \<and>
            voice_client (play_next e g w) = voice_client w) \<and>
         (\<forall>next_url rest. requeue_finished p = next_url # rest \<longrightarrow>
            (\<exists>p'. players (play_next e g w) = (players w)(g \<mapsto> p') \<and>
                  queue p' = rest \<and>
                  current_track_url p' =
                    (if (voice_client w g \<noteq> None \<or> (author_in_voice e \<and> connect_ok e)) \<and>
                        extracted e \<noteq> None \<and> \<not> source_ok e
                     then None else Some next_url) \<and>
                  (load_succeeds e (voice_client w g) \<longrightarrow>
                     current_track_info p' = extracted e \<and>
                     start_time p' = Some (env_now e) \<and>
                     voice_client (play_next e g w) g = Some Playing)))"
proof (intro conjI allI impI)
  show "requeue_finished p =
           (if loop_mode p = 1 then u # queue p
            else if loop_mode p = 2 then queue p @ [u]
            else queue p)"
    using assms by (simp add: requeue_finished_def)
next
  show "play_next e g w =
           (case requeue_finished p of
              next_url # rest \<Rightarrow>
                play_track e g next_url
                  (store g (p\<lparr>current_track_url := None, current_track_info := None,
                             queue := rest\<rparr>) w)
            | [] \<Rightarrow>
                (case player_message p of
                   Some m \<Rightarrow>
                     emit (EditPanel g m)
                       (store g (p\<lparr>current_track_url := None, current_track_info := None,
                                  queue := []\<rparr>) w)
                 | None \<Rightarrow>
                     store g (p\<lparr>current_track_url := None, current_track_info := None,
                                queue := []\<rparr>) w))"
    using assms(1)
    by (auto simp: play_next_def get_player_Some Let_def upd_swap
        split: list.splits option.splits)
next
  assume "requeue_finished p = []"
  then show "players (play_next e g w) =
              (players w)(g \<mapsto> p\<lparr>current_track_url := None, current_track_info := None,
                                 queue := []\<rparr>)"
    using assms(1)
    by (auto simp: play_next_def get_player_Some Let_def upd_swap split: option.splits)
next
  assume "requeue_finished p = []"
  then show "voice_client (play_next e g w) = voice_client w"
    using assms(1)
    by (auto simp: play_next_def get_player_Some Let_def split: option.splits)
next
  fix next_url rest
  assume r: "requeue_finished p = next_url # rest"
  let ?q = "p\<lparr>queue := requeue_finished p, current_track_url := None,
               current_track_info := None, queue := rest\<rparr>"
  let ?w = "store g ?q w"
  have pn: "play_next e g w = play_track e g next_url ?w"
    using assms(1) r by (simp add: play_next_def get_player_Some Let_def)
  obtain p' where p': "players (play_track e g next_url ?w) = (players ?w)(g \<mapsto> p')"
      "queue p' = queue (fst (get_player g ?w))"
      "current_track_url p' =
          (if (voice_client ?w g \<noteq> None \<or> (author_in_voice e \<and> connect_ok e)) \<and>
              extracted e \<noteq> None \<and> \<not> source_ok e
           then None else Some next_url)"
    using play_track_player[of e g next_url ?w] by blast
  have info: "current_track_info p' = extracted e \<and> start_time p' = Some (env_now e)"
    if "load_succeeds e (voice_client w g)"
  proof -
    have ls: "load_succeeds e (voice_client ?w g)" using that by simp
    obtain p2 where "players (play_track e g next_url ?w) = (players ?w)(g \<mapsto> p2)"
        "current_track_info p2 = extracted e" "start_time p2 = Some (env_now e)"
      using play_track_started[OF ls, of next_url] by blast
    then show ?thesis using p'(1) by (metis fun_upd_same option.inject)
  qed
  have voice: "voice_client (play_next e g w) g = Some Playing"
    if "load_succeeds e (voice_client w g)"
  proof -
    have ls: "load_succeeds e (voice_client ?w g)" using that by simp
    show ?thesis unfolding pn using play_track_voice[OF ls] .
  qed
  show "\<exists>p'. players (play_next e g w) = (players w)(g \<mapsto> p') \<and>
                  queue p' = rest \<and>
                  current_track_url p' =
                    (if (voice_client w g \<noteq> None \<or> (author_in_voice e \<and> connect_ok e)) \<and>
                        extracted e \<noteq> None \<and> \<not> source_ok e
                     then None else Some next_url) \<and>
                  (load_succeeds e (voice_client w g) \<longrightarrow>
                     current_track_info p' = extracted e \<and>
                     start_time p' = Some (env_now e) \<and>
                     voice_client (play_next e g w) g = Some Playing)"
    using p' info voice unfolding pn by (intro exI[of _ p']) (auto simp: get_player_def)
qed

text \<open>
  C6. With fewer than two entries in the playback history, \<^verbatim>\<open>previous_button\<close>
  changes nothing (players, voice clients, so queue, history and current track)
  and only replies that there is no previous track.
\<close>

theorem previous_button_short_history:
  assumes "players w g = Some p"
    and "length (playback_history p) < 2"
  shows "previous_button g w = emit (Respond g ''No previous track in history.'') w"
  using assms by (simp add: previous_button_def get_player_Some Let_def)

text \<open>
  \<^verbatim>\<open>stop_button\<close> when deleting the panel does not end in an exception other
  than \<^verbatim>\<open>NotFound\<close>: the player is removed from \<^verbatim>\<open>players\<close>, the voice client
  is disconnected, the panel message is deleted if there is one, and the
  session \<^verbatim>\<open>get_player\<close> then gives for the guild is a fresh one, with an empty
  queue and no current track.
\<close>

lemma stop_button_removes:
  assumes "players w g = Some p"
    and "voice_client w g \<noteq> None"
    and "player_message p = None \<or> d \<noteq> Failed"
  shows "players (stop_button d g w) = (players w)(g := None) \<and>
         voice_client (stop_button d g w) = (voice_client w)(g := None) \<and>
         effects (stop_button d g w) =
           effects w @
           (case player_message p of Some m \<Rightarrow> [DeletePanel g m d] | None \<Rightarrow> []) @
           [Respond g ''Playback stopped and queue cleared.''] \<and>
         fst (get_player g (stop_button d g w)) = GuildPlayer_init"
  using assms
  by (auto simp: stop_button_def get_player_Some get_player_def Let_def
      split: option.splits)

text \<open>
  C3 (as the code has it). A play request is queued at the tail, the current
  track untouched, exactly when the voice client is playing. In every other
  case (no voice client, stopped, paused, a load under way) it goes to
  \<^verbatim>\<open>play_track\<close> at once, and when that load succeeds the requested track is
  the current one and the queue is as before.
\<close>

theorem play_command_dispatch:
  "play_command True (Some u) e g w =
     (if is_playing (voice_client w g)
      then emit (SendText g ''Added to the queue.'')
             (store g ((fst (get_player g w))\<lparr>queue := queue (fst (get_player g w)) @ [u]\<rparr>)
                (snd (get_player g w)))
      else play_track e g u (snd (get_player g w))) \<and>
   (\<not> is_playing (voice_client w g) \<and> load_succeeds e (voice_client w g) \<longrightarrow>
      (\<exists>p'. players (play_command True (Some u) e g w) g = Some p' \<and>
            current_track_url p' = Some u \<and> queue p' = queue (fst (get_player g w))))"
proof -
  let ?w = "snd (get_player g w)"
  have gp: "fst (get_player g ?w) = fst (get_player g w)"
    by (auto simp: get_player_def split: option.splits)
  have a: "play_command True (Some u) e g w =
     (if is_playing (voice_client w g)
      then emit (SendText g ''Added to the queue.'')
             (store g ((fst (get_player g w))\<lparr>queue := queue (fst (get_player g w)) @ [u]\<rparr>) ?w)
      else play_track e g u ?w)"
    by (auto simp: play_command_def Let_def is_playing_def)
  obtain p' where p': "players (play_track e g u ?w) = (players ?w)(g \<mapsto> p')"
      "queue p' = queue (fst (get_player g ?w))"
      "current_track_url p' =
          (if (voice_client ?w g \<noteq> None \<or> (author_in_voice e \<and> connect_ok e)) \<and>
              extracted e \<noteq> None \<and> \<not> source_ok e
           then None else Some u)"
    using play_track_player[of e g u ?w] by blast
  show ?thesis
    using a p' gp by (auto simp: load_succeeds_def)
qed





section \<open>The session theorems on concrete sessions\<close>

lemmas world_defs = run_def play_command_def play_track_def play_next_def
  handle_playback_complete_def get_player_def store_def emit_def set_voice_def
  load_track_def remember_def requeue_finished_def is_playing_def all_ok_def
  init_world_def GuildPlayer_init_def get_elapsed_time_def source_position_def
  ensure_connected_def play_pause_button_def pause_def resume_def Let_def





text \<open>
  The theorem with A loaded: a request for B is queued while the voice client
  plays, and loaded at once while it is stopped.
\<close>

theorem play_command_dispatch_witness:
  "play_command True (Some ''B'') (all_ok 3 2) 1
     (one_guild (GuildPlayer_init\<lparr>current_track_url := Some ''A''\<rparr>) Playing) =
   emit (SendText 1 ''Added to the queue.'')
     (store 1 (GuildPlayer_init\<lparr>current_track_url := Some ''A'', queue := [''B'']\<rparr>)
        (one_guild (GuildPlayer_init\<lparr>current_track_url := Some ''A''\<rparr>) Playing)) \<and>
   \<not> is_playing (voice_client
       (one_guild (GuildPlayer_init\<lparr>current_track_url := Some ''A''\<rparr>) Stopped) 1) \<and>
   load_succeeds (all_ok 3 2) (voice_client
       (one_guild (GuildPlayer_init\<lparr>current_track_url := Some ''A''\<rparr>) Stopped) 1) \<and>
   (\<exists>p'. players (play_command True (Some ''B'') (all_ok 3 2) 1
            (one_guild (GuildPlayer_init\<lparr>current_track_url := Some ''A''\<rparr>) Stopped)) 1 =
            Some p' \<and>
         current_track_url p' = Some ''B'' \<and> queue p' = [])"
  using play_command_dispatch[of "''B''" "all_ok 3 2" 1
      "one_guild (GuildPlayer_init\<lparr>current_track_url := Some ''A''\<rparr>) Playing"]
    play_command_dispatch[of "''B''" "all_ok 3 2" 1
      "one_guild (GuildPlayer_init\<lparr>current_track_url := Some ''A''\<rparr>) Stopped"]
  by (simp add: world_defs load_succeeds_def)

text \<open>
  C3 as stated fails on a paused session. A is requested and plays, the
  play/pause button pauses it; a request for B then neither joins the queue nor
  leaves the current track alone: B is the current track and the queue is empty.
\<close>

theorem play_command_paused_counterexample:
  "voice_client (run
      [PlayCommand True (Some ''A'') (all_ok 0 1) 1,
       PlayPauseButton (all_ok 4 1) 1] init_world) 1 = Some Paused \<and>
   map_option current_track_url (players (run
      [PlayCommand True (Some ''A'') (all_ok 0 1) 1,
       PlayPauseButton (all_ok 4 1) 1] init_world) 1) = Some (Some ''A'') \<and>
   map_option queue (players (run
      [PlayCommand True (Some ''A'') (all_ok 0 1) 1,
       PlayPauseButton (all_ok 4 1) 1] init_world) 1) = Some [] \<and>
   map_option current_track_url (players (run
      [PlayCommand True (Some ''A'') (all_ok 0 1) 1,
       PlayPauseButton (all_ok 4 1) 1,
       PlayCommand True (Some ''B'') (all_ok 6 2) 1] init_world) 1) = Some (Some ''B'') \<and>
   map_option queue (players (run
      [PlayCommand True (Some ''A'') (all_ok 0 1) 1,
       PlayPauseButton (all_ok 4 1) 1,
       PlayCommand True (Some ''B'') (all_ok 6 2) 1] init_world) 1) = Some []"
  by (simp add: world_defs)

text \<open>
  The theorem on an empty queue in loop mode 1 with A loaded: A is put back,
  removed again and loaded, so that A is the current track and the queue is
  empty.
\<close>

theorem play_next_advance_witness:
  "players (one_guild (GuildPlayer_init\<lparr>loop_mode := 1, current_track_url := Some ''A''\<rparr>)
       Stopped) 1 =
     Some (GuildPlayer_init\<lparr>loop_mode := 1, current_track_url := Some ''A''\<rparr>) \<and>
   current_track_url (GuildPlayer_init\<lparr>loop_mode := 1, current_track_url := Some ''A''\<rparr>) =
     Some ''A'' \<and>
   ''A'' \<noteq> [] \<and>
   requeue_finished (GuildPlayer_init\<lparr>loop_mode := 1, current_track_url := Some ''A''\<rparr>) =
     ''A'' # [] \<and>
   load_succeeds (all_ok 5 9) (voice_client
     (one_guild (GuildPlayer_init\<lparr>loop_mode := 1, current_track_url := Some ''A''\<rparr>)
        Stopped) 1) \<and>
   (\<exists>p'. players (play_next (all_ok 5 9) 1
            (one_guild (GuildPlayer_init\<lparr>loop_mode := 1, current_track_url := Some ''A''\<rparr>)
               Stopped)) = [1 \<mapsto> p'] \<and>
         queue p' = [] \<and> current_track_url p' = Some ''A'' \<and>
         current_track_info p' = Some ''info'' \<and> start_time p' = Some 5) \<and>
   voice_client (play_next (all_ok 5 9) 1
     (one_guild (GuildPlayer_init\<lparr>loop_mode := 1, current_track_url := Some ''A''\<rparr>)
        Stopped)) 1 = Some Playing"
  using play_next_advance[of
      "one_guild (GuildPlayer_init\<lparr>loop_mode := 1, current_track_url := Some ''A''\<rparr>) Stopped"
      1 "GuildPlayer_init\<lparr>loop_mode := 1, current_track_url := Some ''A''\<rparr>" "''A''"
      "all_ok 5 9"]
  by (simp add: world_defs load_succeeds_def)

text \<open>The theorem on a history of one entry.\<close>

theorem previous_button_short_history_witness:
  "players (one_guild (GuildPlayer_init\<lparr>playback_history := [''A''],
       current_track_url := Some ''A''\<rparr>) Playing) 1 =
     Some (GuildPlayer_init\<lparr>playback_history := [''A''], current_track_url := Some ''A''\<rparr>) \<and>
   length (playback_history (GuildPlayer_init\<lparr>playback_history := [''A''],
       current_track_url := Some ''A''\<rparr>)) < 2 \<and>
   previous_button 1 (one_guild (GuildPlayer_init\<lparr>playback_history := [''A''],
       current_track_url := Some ''A''\<rparr>) Playing) =
   emit (Respond 1 ''No previous track in history.'')
     (one_guild (GuildPlayer_init\<lparr>playback_history := [''A''],
        current_track_url := Some ''A''\<rparr>) Playing)"
  using previous_button_short_history[of
      "one_guild (GuildPlayer_init\<lparr>playback_history := [''A''],
         current_track_url := Some ''A''\<rparr>) Playing" 1
      "GuildPlayer_init\<lparr>playback_history := [''A''], current_track_url := Some ''A''\<rparr>"]
  by simp

text \<open>
  C7 at a session with A and B queued, C loaded, panel message 7 and a live
  voice client, when deleting the panel ends in an exception other than
  \<^verbatim>\<open>NotFound\<close>: the exception leaves \<^verbatim>\<open>stop_button\<close> before \<^verbatim>\<open>players.pop\<close>, so
  the session stays in the registry (queue emptied, C still loaded, voice
  client gone) and nothing is replied. It is still registered after the
  \<^verbatim>\<open>play_next\<close> that the stopped voice client schedules. When the deletion
  succeeds, the same session is removed.
\<close>

theorem stop_button_delete_failure:
  "players (stop_button Failed 1
       (one_guild (GuildPlayer_init\<lparr>queue := [''A'', ''B''],
          current_track_url := Some ''C'', player_message := Some 7\<rparr>) Playing)) 1 =
     Some (GuildPlayer_init\<lparr>queue := [], current_track_url := Some ''C'',
       player_message := Some 7\<rparr>) \<and>
   voice_client (stop_button Failed 1
       (one_guild (GuildPlayer_init\<lparr>queue := [''A'', ''B''],
          current_track_url := Some ''C'', player_message := Some 7\<rparr>) Playing)) 1 = None \<and>
   effects (stop_button Failed 1
       (one_guild (GuildPlayer_init\<lparr>queue := [''A'', ''B''],
          current_track_url := Some ''C'', player_message := Some 7\<rparr>) Playing)) =
     [DeletePanel 1 7 Failed, Unhandled 1 ''delete''] \<and>
   players (run [StopButton Failed 1, PlayNext None (all_ok 5 9) 1]
       (one_guild (GuildPlayer_init\<lparr>queue := [''A'', ''B''],
          current_track_url := Some ''C'', player_message := Some 7\<rparr>) Playing)) 1 =
     Some (GuildPlayer_init\<lparr>player_message := Some 7\<rparr>) \<and>
   players (stop_button Done 1
       (one_guild (GuildPlayer_init\<lparr>queue := [''A'', ''B''],
          current_track_url := Some ''C'', player_message := Some 7\<rparr>) Playing)) 1 = None"
  by (simp add: world_defs stop_button_def)

section \<open>Properties of the message handler\<close>

lemma log_message_simps [simp]:
  "message (log_message a s h) = message h"
  "initialized (log_message a s h) = initialized h"
  "last_send_error (log_message a s h) = last_send_error h"
  "thinking_message (log_message a s h) = thinking_message h"
  "message_history (log_message a s h) = message_history h @ [(a, s)]"
  by (simp_all add: log_message_def)

lemma py_strip_Nil: "py_strip s = [] \<longleftrightarrow> list_all py_isspace s"
proof
  assume "py_strip s = []"
  then have a: "\<forall>x\<in>set (dropWhile py_isspace s). py_isspace x"
    by (simp add: py_strip_def dropWhile_eq_Nil_conv)
  have "dropWhile py_isspace s = []"
  proof (rule ccontr)
    assume n: "dropWhile py_isspace s \<noteq> []"
    then have "\<not> py_isspace (hd (dropWhile py_isspace s))" by (rule hd_dropWhile)
    then show False using a n by simp
  qed
  then show "list_all py_isspace s" by (simp add: dropWhile_eq_Nil_conv list_all_iff)
next
  assume "list_all py_isspace s"
  then have d: "dropWhile py_isspace s = []"
    by (simp add: dropWhile_eq_Nil_conv list_all_iff)
  show "py_strip s = []" unfolding py_strip_def d by simp
qed

text \<open>The content is replaced exactly when it is empty or all white space.\<close>

lemma blank_iff: "blank content \<longleftrightarrow> list_all py_isspace content"
  by (auto simp: blank_def py_strip_Nil)

text \<open>
  White space outside ASCII counts: a content of U+0085, U+00A0, U+3000, a space
  and a line feed is replaced; a letter between two U+00A0 is kept as it is.
\<close>

lemma send_content_whitespace:
  "send_content [133, 160, 12288, 32, 10] =
     py ''An error occurred, but no details were provided.'' \<and>
   send_content [160, 65, 160] = [160, 65, 160]"
  by (simp add: send_content_def blank_def py_strip_def py_isspace_def)

lemma send_never_raises: "fst (send env content h) = None"
  by (auto simp: send_def Let_def split: prod.splits option.splits)

text \<open>send_rest, case by case.\<close>

lemma send_rest_edit:
  "message h = Some m \<Longrightarrow> message_edit env = Done \<Longrightarrow>
   \<exists>h'. send_rest env c h = (None, h', [Edited m c]) \<and> message h' = Some m"
  by (simp add: send_rest_def Let_def)

lemma send_rest_recreate:
  "message h = Some m \<Longrightarrow> message_edit env = NotFound \<Longrightarrow> channel_send env = Some m' \<Longrightarrow>
   \<exists>h'. send_rest env c h = (None, h', [Posted m' c]) \<and> message h' = Some m'"
  by (simp add: send_rest_def Let_def)

lemma send_rest_first:
  "message h = None \<Longrightarrow> \<not> initialized h \<Longrightarrow> channel_send env = Some m' \<Longrightarrow>
   \<exists>h'. send_rest env c h = (None, h', [Posted m' c]) \<and> message h' = Some m' \<and> initialized h'"
  by (simp add: send_rest_def Let_def)

lemma send_rest_followup:
  "message h = None \<Longrightarrow> initialized h \<Longrightarrow> followup_send env = Done \<Longrightarrow>
   \<exists>h'. send_rest env c h = (None, h', [FollowedUp c]) \<and> message h' = None"
  by (simp add: send_rest_def Let_def)

lemma send_rest_followup_failed:
  "message h = None \<Longrightarrow> initialized h \<Longrightarrow> followup_send env \<noteq> Done \<Longrightarrow>
   channel_send env = Some m' \<Longrightarrow>
   \<exists>h'. send_rest env c h = (None, h', [Posted m' c]) \<and> message h' = Some m'"
  by (cases "followup_send env") (simp_all add: send_rest_def Let_def)


lemma send_try_thinking_done:
  "thinking_message h = Some t \<Longrightarrow> thinking_edit env = Done \<Longrightarrow>
   \<exists>h'. send_try env content h = (None, h', [Edited t (send_content content)]) \<and>
        message h' = Some t"
  by (simp add: send_try_def Let_def)

lemma send_try_gone:
  "thinking_message h = None \<or> thinking_edit env \<noteq> Done \<Longrightarrow>
   \<exists>h2. send_try env content h = send_rest env (send_content content) h2 \<and>
        message h2 = message h \<and> initialized h2 = initialized h"
  by (cases "thinking_edit env"; cases "thinking_message h")
     (auto simp: send_try_def Let_def)

lemma send_of_try:
  "send_try env content h = (None, h', out) \<Longrightarrow> send env content h = (None, h', out)"
  by (simp add: send_def)

lemma send_rest_delivers: "fst (send_rest env c h) = None \<Longrightarrow> snd (snd (send_rest env c h)) \<noteq> []"
  by (auto simp: send_rest_def Let_def split: option.splits api_result.splits if_splits)

lemma send_try_delivers:
  "fst (send_try env content h) = None \<Longrightarrow> snd (snd (send_try env content h)) \<noteq> []"
  by (auto simp: send_try_def Let_def send_rest_delivers split: option.splits api_result.splits)

lemma send_failure_recorded:
  assumes empty: "snd (snd (send env content h)) = []"
  shows "last_send_error (fst (snd (send env content h))) \<noteq> None \<and>
   (''Send'', ''Error'') \<in> set (message_history (fst (snd (send env content h))))"
proof (cases "send_try env content h")
  case (fields e h' out)
  show ?thesis
  proof (cases e)
    case None
    then have "send env content h = (None, h', out)"
      using fields by (simp add: send_def)
    moreover have "out \<noteq> []"
      using send_try_delivers[of env content h] fields None by simp
    ultimately show ?thesis using empty by simp
  next
    case (Some x)
    then show ?thesis
      using fields empty by (auto simp: send_def Let_def split: option.splits)
  qed
qed

text \<open>
  C8 (as the code has it). \<^verbatim>\<open>send\<close> never raises. It edits the thinking message
  when that edit succeeds and takes it as the message. Otherwise: a stored
  message whose edit succeeds is edited; a stored message whose edit reports
  \<^verbatim>\<open>NotFound\<close> is replaced by a new channel message, which is adopted; with no
  stored message, a handler not yet initialized sends a channel message and
  adopts it, and an initialized one sends a follow-up, which it does not adopt,
  and falls back to a channel message, adopted, only when the follow-up fails.
  When nothing gets out, the exception is kept in \<^verbatim>\<open>last_send_error\<close> and logged.
\<close>

theorem send_contract:
  "fst (send env content h) = None \<and>
   (thinking_message h = Some t \<and> thinking_edit env = Done \<longrightarrow>
      (\<exists>h'. send env content h = (None, h', [Edited t (send_content content)]) \<and>
            message h' = Some t)) \<and>
   ((thinking_message h = None \<or> thinking_edit env \<noteq> Done) \<and> message h = Some m \<and>
    message_edit env = Done \<longrightarrow>
      (\<exists>h'. send env content h = (None, h', [Edited m (send_content content)]) \<and>
            message h' = Some m)) \<and>
   ((thinking_message h = None \<or> thinking_edit env \<noteq> Done) \<and> message h = Some m \<and>
    message_edit env = NotFound \<and> channel_send env = Some m' \<longrightarrow>
      (\<exists>h'. send env content h = (None, h', [Posted m' (send_content content)]) \<and>
            message h' = Some m')) \<and>
   ((thinking_message h = None \<or> thinking_edit env \<noteq> Done) \<and> message h = None \<and>
    \<not> initialized h \<and> channel_send env = Some m' \<longrightarrow>
      (\<exists>h'. send env content h = (None, h', [Posted m' (send_content content)]) \<and>
            message h' = Some m' \<and> initialized h')) \<and>
   ((thinking_message h = None \<or> thinking_edit env \<noteq> Done) \<and> message h = None \<and>
    initialized h \<and> followup_send env = Done \<longrightarrow>
      (\<exists>h'. send env content h = (None, h', [FollowedUp (send_content content)]) \<and>
            message h' = None)) \<and>
   ((thinking_message h = None \<or> thinking_edit env \<noteq> Done) \<and> message h = None \<and>
    initialized h \<and> followup_send env \<noteq> Done \<and> channel_send env = Some m' \<longrightarrow>
      (\<exists>h'. send env content h = (None, h', [Posted m' (send_content content)]) \<and>
            message h' = Some m')) \<and>
   (snd (snd (send env content h)) = [] \<longrightarrow>
      last_send_error (fst (snd (send env content h))) \<noteq> None \<and>
      (''Send'', ''Error'') \<in> set (message_history (fst (snd (send env content h)))))"
proof (intro conjI impI)
  show "fst (send env content h) = None" by (rule send_never_raises)
next
  assume "thinking_message h = Some t \<and> thinking_edit env = Done"
  then show "\<exists>h'. send env content h = (None, h', [Edited t (send_content content)]) \<and>
            message h' = Some t"
    using send_try_thinking_done[of h t env content] send_of_try by blast
next
  assume a: "(thinking_message h = None \<or> thinking_edit env \<noteq> Done) \<and> message h = Some m \<and>
    message_edit env = Done"
  then obtain h2 where h2: "send_try env content h = send_rest env (send_content content) h2"
      "message h2 = message h" "initialized h2 = initialized h"
    using send_try_gone[of h env content] by blast
  show "\<exists>h'. send env content h = (None, h', [Edited m (send_content content)]) \<and>
            message h' = Some m"
    using send_rest_edit[of h2 m env "send_content content"] a h2 send_of_try by fastforce
next
  assume a: "(thinking_message h = None \<or> thinking_edit env \<noteq> Done) \<and> message h = Some m \<and>
    message_edit env = NotFound \<and> channel_send env = Some m'"
  then obtain h2 where h2: "send_try env content h = send_rest env (send_content content) h2"
      "message h2 = message h" "initialized h2 = initialized h"
    using send_try_gone[of h env content] by blast
  show "\<exists>h'. send env content h = (None, h', [Posted m' (send_content content)]) \<and>
            message h' = Some m'"
    using send_rest_recreate[of h2 m env m' "send_content content"] a h2 send_of_try
    by fastforce
next
  assume a: "(thinking_message h = None \<or> thinking_edit env \<noteq> Done) \<and> message h = None \<and>
    \<not> initialized h \<and> channel_send env = Some m'"
  then obtain h2 where h2: "send_try env content h = send_rest env (send_content content) h2"
      "message h2 = message h" "initialized h2 = initialized h"
    using send_try_gone[of h env content] by blast
  show "\<exists>h'. send env content h = (None, h', [Posted m' (send_content content)]) \<and>
            message h' = Some m' \<and> initialized h'"
    using send_rest_first[of h2 env m' "send_content content"] a h2 send_of_try by fastforce
next
  assume a: "(thinking_message h = None \<or> thinking_edit env \<noteq> Done) \<and> message h = None \<and>
    initialized h \<and> followup_send env = Done"
  then obtain h2 where h2: "send_try env content h = send_rest env (send_content content) h2"
      "message h2 = message h" "initialized h2 = initialized h"
    using send_try_gone[of h env content] by blast
  show "\<exists>h'. send env content h = (None, h', [FollowedUp (send_content content)]) \<and>
            message h' = None"
    using send_rest_followup[of h2 env "send_content content"] a h2 send_of_try by fastforce
next
  assume a: "(thinking_message h = None \<or> thinking_edit env \<noteq> Done) \<and> message h = None \<and>
    initialized h \<and> followup_send env \<noteq> Done \<and> channel_send env = Some m'"
  then obtain h2 where h2: "send_try env content h = send_rest env (send_content content) h2"
      "message h2 = message h" "initialized h2 = initialized h"
    using send_try_gone[of h env content] by blast
  show "\<exists>h'. send env content h = (None, h', [Posted m' (send_content content)]) \<and>
            message h' = Some m'"
    using send_rest_followup_failed[of h2 env m' "send_content content"] a h2 send_of_try
    by fastforce
next
  assume "snd (snd (send env content h)) = []"
  then show "last_send_error (fst (snd (send env content h))) \<noteq> None"
    using send_failure_recorded by blast
next
  assume "snd (snd (send env content h)) = []"
  then show "(''Send'', ''Error'') \<in> set (message_history (fst (snd (send env content h))))"
    using send_failure_recorded by blast
qed


lemmas send_defs = send_def send_try_def send_rest_def send_content_def blank_def
  py_strip_def py_isspace_def py_def log_message_def initialize_def MessageHandler_init_def Let_def

text \<open>
  The theorem on a handler whose stored message 3 was deleted: the edit reports
  \<^verbatim>\<open>NotFound\<close>, message 8 is posted and adopted.
\<close>

theorem send_contract_witness:
  "fst (send \<lparr>thinking_edit = Done, message_edit = NotFound, followup_send = Done,
              channel_send = Some 8, channel_resend = Some 9\<rparr> (py ''Now playing'')
         (MessageHandler_init\<lparr>message := Some 3, initialized := True\<rparr>)) = None \<and>
   thinking_message (MessageHandler_init\<lparr>message := Some 3, initialized := True\<rparr>) = None \<and>
   message (MessageHandler_init\<lparr>message := Some 3, initialized := True\<rparr>) = Some 3 \<and>
   (\<exists>h'. send \<lparr>thinking_edit = Done, message_edit = NotFound, followup_send = Done,
               channel_send = Some 8, channel_resend = Some 9\<rparr> (py ''Now playing'')
          (MessageHandler_init\<lparr>message := Some 3, initialized := True\<rparr>) =
          (None, h', [Posted 8 (py ''Now playing'')]) \<and> message h' = Some 8)"
  using send_contract[of
      "\<lparr>thinking_edit = Done, message_edit = NotFound, followup_send = Done,
        channel_send = Some 8, channel_resend = Some 9\<rparr>" "py ''Now playing''"
      "MessageHandler_init\<lparr>message := Some 3, initialized := True\<rparr>" 0 3 8]
  by (simp add: MessageHandler_init_def send_content_def blank_def py_strip_def
        py_isspace_def py_def)

text \<open>
  C8 as stated fails after a deferred acknowledgement. \<^verbatim>\<open>initialize\<close> defers and
  keeps thinking message 5; that message is then deleted. \<^verbatim>\<open>send\<close> sends a
  follow-up: no channel message is created and none is adopted as the message.
\<close>

theorem send_followup_counterexample:
  "initialize \<lparr>defer_result = Done, original_response = 5, fallback_send = None\<rparr>
     MessageHandler_init =
   (None,
    MessageHandler_init\<lparr>initialized := True, thinking_message := Some 5,
      message_history := [(''Initialize'', ''Attempting to defer response''),
                          (''Initialize'', ''Success'')]\<rparr>,
    []) \<and>
   snd (snd (send \<lparr>thinking_edit = NotFound, message_edit = Done, followup_send = Done,
                   channel_send = Some 8, channel_resend = Some 9\<rparr> (py ''Now playing'')
      (MessageHandler_init\<lparr>initialized := True, thinking_message := Some 5,
         message_history := [(''Initialize'', ''Attempting to defer response''),
                             (''Initialize'', ''Success'')]\<rparr>))) =
     [FollowedUp (py ''Now playing'')] \<and>
   message (fst (snd (send \<lparr>thinking_edit = NotFound, message_edit = Done, followup_send = Done,
                   channel_send = Some 8, channel_resend = Some 9\<rparr> (py ''Now playing'')
      (MessageHandler_init\<lparr>initialized := True, thinking_message := Some 5,
         message_history := [(''Initialize'', ''Attempting to defer response''),
                             (''Initialize'', ''Success'')]\<rparr>)))) = None"
  by (simp add: send_defs)

section \<open>Invariants of the registered players\<close>

lemma carried_refl [simp]: "carried p p"
  by (simp add: carried_def)

lemma carried_trans: "carried p q \<Longrightarrow> carried q r \<Longrightarrow> carried p r"
  by (simp add: carried_def)

lemma distinct_remember: "distinct h \<Longrightarrow> distinct (remember u h)"
  by (simp add: remember_def)

lemma fst_get_player_Some [simp]: "players w g = Some p \<Longrightarrow> fst (get_player g w) = p"
  by (simp add: get_player_def)

lemma fst_get_player_store [simp]: "fst (get_player g (store g p w)) = p"
  by (simp add: get_player_def)

lemma fst_get_player_cong:
  "players w' g = players w g \<Longrightarrow> fst (get_player g w') = fst (get_player g w)"
  by (simp add: get_player_def split: option.splits)

lemma fst_get_player_other [simp]:
  "g' \<noteq> g \<Longrightarrow> fst (get_player g' (store g p w)) = fst (get_player g' w)"
  by (rule fst_get_player_cong) simp

lemma fst_get_player_emit [simp]: "fst (get_player g (emit x w)) = fst (get_player g w)"
  by (rule fst_get_player_cong) simp

lemma fst_get_player_voice [simp]: "fst (get_player g (set_voice g' vc w)) = fst (get_player g w)"
  by (rule fst_get_player_cong) simp

lemma fst_get_player_snd [simp]:
  "fst (get_player g' (snd (get_player g w))) = fst (get_player g' w)"
  by (auto simp: get_player_def split: option.splits)

lemma play_track_other [simp]:
  "g' \<noteq> g \<Longrightarrow> players (play_track e g u w) g' = players w g'"
  using play_track_player[of e g u w] by auto

lemma carried_play_track:
  assumes "players (play_track e g u w) g = Some p'"
  shows "carried (fst (get_player g w)) p'"
proof -
  obtain P where P: "players (play_track e g u w) = (players w)(g \<mapsto> P)"
      "loop_mode P = loop_mode (fst (get_player g w))"
      "playback_history P =
          (if (voice_client w g \<noteq> None \<or> (author_in_voice e \<and> connect_ok e)) \<and>
              extracted e \<noteq> None
           then remember u (playback_history (fst (get_player g w)))
           else playback_history (fst (get_player g w)))"
    using play_track_player[of e g u w] by blast
  have "p' = P" using assms P(1) by simp
  then show ?thesis using P(2,3) by (simp add: carried_def distinct_remember)
qed

lemma play_next_other [simp]:
  "g' \<noteq> g \<Longrightarrow> players (play_next e g w) g' = players w g'"
  by (auto simp: play_next_def Let_def split: list.splits option.splits)

lemma carried_play_next:
  assumes "players (play_next e g w) g = Some p'"
  shows "carried (fst (get_player g w)) p'"
proof -
  let ?q = "(fst (get_player g w))\<lparr>queue := requeue_finished (fst (get_player g w)),
              current_track_url := None, current_track_info := None\<rparr>"
  show ?thesis
  proof (cases "requeue_finished (fst (get_player g w))")
    case Nil
    then show ?thesis
      using assms by (auto simp: play_next_def Let_def carried_def split: option.splits)
  next
    case (Cons x r)
    then have "play_next e g w =
        play_track e g x (store g (?q\<lparr>queue := r\<rparr>) (snd (get_player g w)))"
      by (simp add: play_next_def Let_def)
    then have "carried (?q\<lparr>queue := r\<rparr>) p'"
      using assms
        carried_play_track[of e g x "store g (?q\<lparr>queue := r\<rparr>) (snd (get_player g w))" p']
      by simp
    then show ?thesis by (simp add: carried_def)
  qed
qed


lemma distinct_butlast_twice: "distinct h \<Longrightarrow> distinct (butlast (butlast h))"
  by (simp add: distinct_butlast)

lemma complete_other [simp]:
  "g' \<noteq> g \<Longrightarrow> players (handle_playback_complete conn e g w) g' = players w g'"
  by (simp add: handle_playback_complete_def split: option.splits)

lemma carried_complete:
  assumes "players (handle_playback_complete conn e g w) g = Some p'"
  shows "carried (fst (get_player g w)) p'"
proof (cases conn)
  case None
  then show ?thesis
    using assms carried_play_next[of e g w p'] by (simp add: handle_playback_complete_def)
next
  case (Some ok)
  then show ?thesis
    using assms carried_play_next[of e g "set_voice g (if ok then Some Stopped else None) w" p']
    by (simp add: handle_playback_complete_def)
qed

lemma previous_other [simp]:
  "g' \<noteq> g \<Longrightarrow> players (previous_button g w) g' = players w g'"
  by (simp add: previous_button_def Let_def)

lemma carried_previous:
  "players (previous_button g w) g = Some p' \<Longrightarrow> carried (fst (get_player g w)) p'"
  by (auto simp: previous_button_def Let_def carried_def distinct_butlast_twice
      split: if_splits)

lemma play_pause_other [simp]:
  "g' \<noteq> g \<Longrightarrow> players (play_pause_button e g w) g' = players w g'"
  by (auto simp: play_pause_button_def Let_def split: option.splits playback.splits list.splits)

lemma carried_pause_resume [simp]:
  "carried p (pause t p)" "carried p (resume rnd t p)"
  by (auto simp: carried_def pause_def resume_def split: option.splits)

lemma carried_play_pause:
  assumes "players (play_pause_button e g w) g = Some p'"
  shows "carried (fst (get_player g w)) p'"
proof (cases "voice_client w g")
  case None
  then show ?thesis using assms by (auto simp: play_pause_button_def Let_def)
next
  case (Some vc)
  show ?thesis
  proof (cases vc)
    case Playing
    then show ?thesis using assms Some by (auto simp: play_pause_button_def Let_def)
  next
    case Paused
    then show ?thesis using assms Some by (auto simp: play_pause_button_def Let_def)
  next
    case Stopped
    show ?thesis
    proof (cases "queue (fst (get_player g w))")
      case Nil
      then show ?thesis using assms Some Stopped by (auto simp: play_pause_button_def Let_def)
    next
      case (Cons x r)
      let ?q = "(fst (get_player g w))\<lparr>queue := r\<rparr>"
      have "players (play_track e g x (store g ?q (snd (get_player g w)))) g = Some p'"
        using assms Some Stopped Cons by (simp add: play_pause_button_def Let_def)
      then have "carried ?q p'"
        using carried_play_track[of e g x "store g ?q (snd (get_player g w))" p'] by simp
      then show ?thesis by (simp add: carried_def)
    qed
  qed
qed

lemma skip_players [simp]: "players (skip_button g w) = players w"
  by (simp add: skip_button_def)

lemma loop_other [simp]:
  "g' \<noteq> g \<Longrightarrow> players (loop_button g w) g' = players w g'"
  by (simp add: loop_button_def Let_def)

lemma loop_same:
  "players (loop_button g w) g = Some p' \<Longrightarrow>
   loop_mode p' = (loop_mode (fst (get_player g w)) + 1) mod 3 \<and>
   playback_history p' = playback_history (fst (get_player g w))"
  by (auto simp: loop_button_def Let_def)

lemma stop_other [simp]:
  "g' \<noteq> g \<Longrightarrow> players (stop_button d g w) g' = players w g'"
  by (auto simp: stop_button_def Let_def split: option.splits)

lemma carried_stop:
  "players (stop_button d g w) g = Some p' \<Longrightarrow> carried (fst (get_player g w)) p'"
  by (auto simp: stop_button_def Let_def carried_def split: option.splits if_splits)

lemma play_command_other [simp]:
  "g' \<noteq> g \<Longrightarrow> players (play_command v found e g w) g' = players w g'"
  by (auto simp: play_command_def Let_def split: option.splits)

lemma carried_play_command:
  assumes "players (play_command v found e g w) g = Some p'"
  shows "carried (fst (get_player g w)) p'"
proof (cases "v \<and> found \<noteq> None \<and> (voice_client w g = None \<or> \<not> is_playing (voice_client w g))")
  case True
  then obtain u where u: "found = Some u" by auto
  have "players (play_track e g u (snd (get_player g w))) g = Some p'"
    using assms True u by (auto simp: play_command_def Let_def)
  then show ?thesis
    using carried_play_track[of e g u "snd (get_player g w)" p'] by simp
next
  case False
  then show ?thesis
    using assms by (auto simp: play_command_def Let_def carried_def split: option.splits if_splits)
qed

lemma voice_update_other [simp]:
  "g' \<noteq> g \<Longrightarrow> players (on_voice_state_update d ok g w) g' = players w g'"
  by (auto simp: on_voice_state_update_def Let_def split: option.splits)

lemma carried_voice_update:
  "players (on_voice_state_update d ok g w) g = Some p' \<Longrightarrow> carried (fst (get_player g w)) p'"
  by (auto simp: on_voice_state_update_def Let_def split: option.splits if_splits)

lemma inactivity_other [simp]:
  "g' \<noteq> g \<Longrightarrow> players (inactivity_timeout qe g w) g' = players w g'"
  by (simp add: inactivity_timeout_def)

lemma carried_inactivity:
  "players (inactivity_timeout qe g w) g = Some p' \<Longrightarrow> carried (fst (get_player g w)) p'"
  by (auto simp: inactivity_timeout_def split: if_splits)

lemma query_other [simp]:
  "g' \<noteq> g \<Longrightarrow> players (query_elapsed t sp g w) g' = players w g'"
  by (simp add: query_elapsed_def split: option.splits)

lemma carried_query:
  "players (query_elapsed t sp g w) g = Some p' \<Longrightarrow> carried (fst (get_player g w)) p'"
  by (auto simp: query_elapsed_def carried_def split: option.splits)


lemma carried_same_guild:
  "players w g = Some p' \<Longrightarrow> carried (fst (get_player g w)) p'"
  by simp

lemma step_carried:
  assumes "players (step ev w) g = Some p'"
    and "ev \<noteq> LoopButton g"
  shows "carried (fst (get_player g w)) p'"
proof (cases ev)
  case (PlayCommand v found e g0)
  then show ?thesis using assms carried_play_command[of v found e g w p']
    by (cases "g = g0") auto
next
  case (PlayNext conn e g0)
  then show ?thesis using assms carried_complete[of conn e g w p']
    by (cases "g = g0") auto
next
  case (InactivityTimeout qe g0)
  then show ?thesis using assms carried_inactivity[of qe g w p']
    by (cases "g = g0") auto
next
  case (PreviousButton g0)
  then show ?thesis using assms carried_previous[of g w p']
    by (cases "g = g0") auto
next
  case (PlayPauseButton e g0)
  then show ?thesis using assms carried_play_pause[of e g w p']
    by (cases "g = g0") auto
next
  case (SkipButton g0)
  then show ?thesis using assms by auto
next
  case (LoopButton g0)
  then show ?thesis using assms by (cases "g = g0") auto
next
  case (StopButton d g0)
  then show ?thesis using assms carried_stop[of d g w p']
    by (cases "g = g0") auto
next
  case (VoiceStateUpdate d ok g0)
  then show ?thesis using assms carried_voice_update[of d ok g w p']
    by (cases "g = g0") auto
next
  case Shutdown
  then show ?thesis using assms by (simp add: on_shutdown_def)
next
  case (QueryElapsed t sp g0)
  then show ?thesis using assms carried_query[of t sp g w p']
    by (cases "g = g0") auto
next
  case (TrackEnds g0)
  then show ?thesis using assms by (auto split: if_splits)
qed

lemma step_loop_mode:
  assumes "players (step ev w) g = Some p'"
  shows "loop_mode p' =
           (if ev = LoopButton g then (loop_mode (fst (get_player g w)) + 1) mod 3
            else loop_mode (fst (get_player g w)))"
proof (cases "ev = LoopButton g")
  case True
  then show ?thesis using assms loop_same[of g w p'] by simp
next
  case False
  then show ?thesis using step_carried[OF assms False] by (simp add: carried_def)
qed

lemma step_history_distinct:
  assumes "players (step ev w) g = Some p'"
    and "distinct (playback_history (fst (get_player g w)))"
  shows "distinct (playback_history p')"
proof (cases "ev = LoopButton g")
  case True
  then show ?thesis using assms loop_same[of g w p'] by simp
next
  case False
  then show ?thesis using step_carried[OF assms(1) False] assms(2) by (simp add: carried_def)
qed


lemma player_ok_get_player:
  "(\<And>g p. players w g = Some p \<Longrightarrow> player_ok p) \<Longrightarrow> player_ok (fst (get_player g w))"
  by (auto simp: get_player_def player_ok_def GuildPlayer_init_def split: option.splits)

lemma step_player_ok:
  assumes "\<And>g p. players w g = Some p \<Longrightarrow> player_ok p"
    and "players (step ev w) g = Some p'"
  shows "player_ok p'"
proof -
  have ok: "player_ok (fst (get_player g w))"
    using assms(1) by (rule player_ok_get_player)
  have d: "distinct (playback_history p')"
    using step_history_distinct[OF assms(2)] ok by (simp add: player_ok_def)
  have "loop_mode p' \<in> {0, 1, 2}"
    using step_loop_mode[OF assms(2)] ok by (auto simp: player_ok_def)
  then show ?thesis using d by (simp add: player_ok_def)
qed

lemma run_player_ok:
  assumes "\<And>g p. players w g = Some p \<Longrightarrow> player_ok p"
    and "players (run evs w) g = Some p'"
  shows "player_ok p'"
  using assms
proof (induction evs arbitrary: w g p')
  case Nil
  then show ?case by (simp add: run_def)
next
  case (Cons ev evs)
  have r: "run (ev # evs) w = run evs (step ev w)" by (simp add: run_def)
  have "\<And>g p. players (step ev w) g = Some p \<Longrightarrow> player_ok p"
    using step_player_ok[of w ev] Cons.prems(1) by blast
  then show ?case using Cons.IH[of "step ev w" g p'] Cons.prems(2) r by simp
qed

lemma reachable_player_ok:
  "players (run evs init_world) g = Some p \<Longrightarrow> player_ok p"
  using run_player_ok[of init_world evs g p] by (simp add: init_world_def)


lemma play_track_history:
  assumes "players (play_track e g u w) g = Some p'"
  shows "playback_history p' =
           (if (voice_client w g \<noteq> None \<or> (author_in_voice e \<and> connect_ok e)) \<and>
               extracted e \<noteq> None
            then remember u (playback_history (fst (get_player g w)))
            else playback_history (fst (get_player g w)))"
  using play_track_player[of e g u w] assms by auto

text \<open>
  C9. Whatever events have happened since the start, the playback history of a
  registered player has no duplicates. \<^verbatim>\<open>play_track\<close> appends the URL it plays
  exactly when the extraction was reached and succeeded and the URL is nowhere
  in the history; playing again a URL that is in the history leaves the history
  as it is.
\<close>

theorem history_never_duplicates:
  "(players (run evs init_world) g = Some p \<longrightarrow> distinct (playback_history p)) \<and>
   (players (play_track e g u w) g = Some p' \<longrightarrow>
      playback_history p' =
        (if (voice_client w g \<noteq> None \<or> (author_in_voice e \<and> connect_ok e)) \<and>
            extracted e \<noteq> None \<and> u \<notin> set (playback_history (fst (get_player g w)))
         then playback_history (fst (get_player g w)) @ [u]
         else playback_history (fst (get_player g w))))"
proof (intro conjI impI)
  assume "players (run evs init_world) g = Some p"
  then show "distinct (playback_history p)"
    using reachable_player_ok[of evs g p] by (simp add: player_ok_def)
next
  assume "players (play_track e g u w) g = Some p'"
  then show "playback_history p' =
        (if (voice_client w g \<noteq> None \<or> (author_in_voice e \<and> connect_ok e)) \<and>
            extracted e \<noteq> None \<and> u \<notin> set (playback_history (fst (get_player g w)))
         then playback_history (fst (get_player g w)) @ [u]
         else playback_history (fst (get_player g w)))"
    using play_track_history[of e g u w p'] by (simp add: remember_def)
qed

text \<open>
  C10. A new player has loop mode 0; after any events the loop mode of a
  registered player is 0, 1 or 2; and one event gives a player the loop mode it
  had before (0 for a player the event creates), except the loop button of its
  guild, which gives it that mode plus one modulo 3.
\<close>

theorem loop_mode_in_range:
  "loop_mode GuildPlayer_init = 0 \<and>
   (players (run evs init_world) g = Some p \<longrightarrow> loop_mode p \<in> {0, 1, 2}) \<and>
   (players (step ev w) g = Some p' \<longrightarrow>
      loop_mode p' =
        (if ev = LoopButton g then (loop_mode (fst (get_player g w)) + 1) mod 3
         else loop_mode (fst (get_player g w))))"
proof (intro conjI impI)
  show "loop_mode GuildPlayer_init = 0" by (simp add: GuildPlayer_init_def)
next
  assume "players (run evs init_world) g = Some p"
  then show "loop_mode p \<in> {0, 1, 2}"
    using reachable_player_ok[of evs g p] by (simp add: player_ok_def)
next
  assume "players (step ev w) g = Some p'"
  then show "loop_mode p' =
        (if ev = LoopButton g then (loop_mode (fst (get_player g w)) + 1) mod 3
         else loop_mode (fst (get_player g w)))"
    by (rule step_loop_mode)
qed

text \<open>
  The theorem on a session that plays A, then B, then A again: the history is
  [A, B] while A is the current track, so its last entry is not the track
  playing.
\<close>

theorem history_never_duplicates_witness:
  "map_option playback_history (players (run
      [PlayCommand True (Some ''A'') (all_ok 0 1) 1, TrackEnds 1,
       PlayCommand True (Some ''B'') (all_ok 5 2) 1, TrackEnds 1,
       PlayCommand True (Some ''A'') (all_ok 9 3) 1] init_world) 1) = Some [''A'', ''B''] \<and>
   map_option current_track_url (players (run
      [PlayCommand True (Some ''A'') (all_ok 0 1) 1, TrackEnds 1,
       PlayCommand True (Some ''B'') (all_ok 5 2) 1, TrackEnds 1,
       PlayCommand True (Some ''A'') (all_ok 9 3) 1] init_world) 1) = Some (Some ''A'') \<and>
   distinct (playback_history (the (players (run
      [PlayCommand True (Some ''A'') (all_ok 0 1) 1, TrackEnds 1,
       PlayCommand True (Some ''B'') (all_ok 5 2) 1, TrackEnds 1,
       PlayCommand True (Some ''A'') (all_ok 9 3) 1] init_world) 1)))"
  using history_never_duplicates[of
      "[PlayCommand True (Some ''A'') (all_ok 0 1) 1, TrackEnds 1,
        PlayCommand True (Some ''B'') (all_ok 5 2) 1, TrackEnds 1,
        PlayCommand True (Some ''A'') (all_ok 9 3) 1]" 1
      "the (players (run
        [PlayCommand True (Some ''A'') (all_ok 0 1) 1, TrackEnds 1,
         PlayCommand True (Some ''B'') (all_ok 5 2) 1, TrackEnds 1,
         PlayCommand True (Some ''A'') (all_ok 9 3) 1] init_world) 1)"]
  by (simp add: world_defs)

text \<open>
  The theorem on a session whose loop button is pressed four times around a
  play request: the loop mode ends at 1.
\<close>

theorem loop_mode_in_range_witness:
  "map_option loop_mode (players (run
      [LoopButton 1, LoopButton 1, PlayCommand True (Some ''A'') (all_ok 0 1) 1,
       LoopButton 1, LoopButton 1] init_world) 1) = Some 1 \<and>
   loop_mode (the (players (run
      [LoopButton 1, LoopButton 1, PlayCommand True (Some ''A'') (all_ok 0 1) 1,
       LoopButton 1, LoopButton 1] init_world) 1)) \<in> {0, 1, 2}"
  using loop_mode_in_range[of
      "[LoopButton 1, LoopButton 1, PlayCommand True (Some ''A'') (all_ok 0 1) 1,
        LoopButton 1, LoopButton 1]" 1
      "the (players (run
        [LoopButton 1, LoopButton 1, PlayCommand True (Some ''A'') (all_ok 0 1) 1,
         LoopButton 1, LoopButton 1] init_world) 1)"]
  by (simp add: world_defs loop_button_def loop_status_text_def)

end
